theory Spec2Isabelle
  imports Main "HOL-Library.Sublist"
begin

section \<open>Python values and errors\<close>

text \<open>
  The script \<^verbatim>\<open>main.py\<close> raises nothing but Python's built-in exceptions, either by
  itself (\<^verbatim>\<open>raise ValueError\<close>) or through a dictionary lookup, an item assignment, an
  attribute access, a built-in or a tensor operation. Each raise is a value \<open>Inl e\<close> of the result.
\<close>

datatype error = KeyError | IndexError | TypeError | ValueError | RuntimeError | AttributeError

definition ebind :: "error + 'b \<Rightarrow> ('b \<Rightarrow> error + 'c) \<Rightarrow> error + 'c" where
  "ebind r f = (case r of Inl e \<Rightarrow> Inl e | Inr v \<Rightarrow> f v)"

text \<open>\<^verbatim>\<open>d[k]\<close> on a dictionary: KeyError when the key is absent.\<close>

definition lookup :: "('k \<rightharpoonup> 'v) \<Rightarrow> 'k \<Rightarrow> error + 'v" where
  "lookup d k = (case d k of None \<Rightarrow> Inl KeyError | Some v \<Rightarrow> Inr v)"

text \<open>
  \<^verbatim>\<open>xs[i]\<close> on a tuple such as \<^verbatim>\<open>tensor.shape\<close>: a negative index counts from the end,
  IndexError outside \<open>[-n, n)\<close>.
\<close>

definition py_index :: "'b list \<Rightarrow> int \<Rightarrow> error + 'b" where
  "py_index xs i =
     (let n = int (length xs) in
      if - n \<le> i \<and> i < n then Inr (xs ! nat (i mod n)) else Inl IndexError)"

text \<open>
  \<^verbatim>\<open>seq[i] = v\<close> on the block sequence. \<^verbatim>\<open>model.blocks\<close> is a \<^verbatim>\<open>torch.nn.Sequential\<close>, whose
  item assignment checks \<^verbatim>\<open>-len <= idx < len\<close> (IndexError otherwise) and then takes
  \<^verbatim>\<open>idx %= len\<close>; a Python list does the same.
\<close>

definition seq_set :: "'b list \<Rightarrow> int \<Rightarrow> 'b \<Rightarrow> error + 'b list" where
  "seq_set xs i v =
     (let n = int (length xs) in
      if - n \<le> i \<and> i < n then Inr (xs[nat (i mod n) := v]) else Inl IndexError)"

text \<open>\<^verbatim>\<open>max(xs)\<close>: ValueError on an empty list.\<close>

definition py_max :: "int list \<Rightarrow> error + int" where
  "py_max xs = (case xs of [] \<Rightarrow> Inl ValueError | y # ys \<Rightarrow> Inr (fold max ys y))"

text \<open>\<^verbatim>\<open>str(n)\<close> for an integer, as the f-string \<^verbatim>\<open>f"blocks.{target}"\<close> formats it.\<close>

definition digit_char :: "nat \<Rightarrow> char" where
  "digit_char d = ''0123456789'' ! d"

fun str_nat :: "nat \<Rightarrow> string" where
  "str_nat n = (if n < 10 then [digit_char n] else str_nat (n div 10) @ [digit_char (n mod 10)])"

declare str_nat.simps [simp del]

definition str_int :: "int \<Rightarrow> string" where
  "str_int i = (if i < 0 then CHR ''-'' # str_nat (nat (- i)) else str_nat (nat i))"

section \<open>Tensors, parameters and the model\<close>

text \<open>
  A tensor is its shape and its elements in row-major order. The element type \<open>'a\<close>
  stands for the floating-point scalars; no arithmetic on them is modelled.
\<close>

record 'a tensor =
  shape :: "nat list"
  elems :: "'a list"

definition well_formed :: "'a tensor \<Rightarrow> bool" where
  "well_formed t = (length (elems t) = prod_list (shape t))"

record 'a param =
  data :: "'a tensor"
  requires_grad :: bool

type_synonym 'a params = "(string \<times> 'a param) list"

text \<open>
  A block of the sequence is the architecture's own attention block, a \<^verbatim>\<open>MixerBlock\<close>
  built from four hyperparameters, or an \<^verbatim>\<open>EmptyBlock\<close>. Each carries its named
  parameters (an \<^verbatim>\<open>EmptyBlock\<close> has none). \<^verbatim>\<open>nn.Identity\<close> stands in for a layer and has no
  parameters either.
\<close>

datatype 'a block =
    AttnBlock "'a params"
  | MixerBlock int int int int "'a params"
  | EmptyBlock

datatype 'a layer = Layer "'a params" | Identity

record 'a patch_embed =
  num_patches :: int
  proj :: "'a params"

text \<open>
  The vision transformer as the script uses it: its own parameters (\<^verbatim>\<open>cls_token\<close>,
  \<^verbatim>\<open>pos_embed\<close>), the patch embedding, the block sequence and the four layers that
  \<^verbatim>\<open>cut_extra_layers\<close> overwrites.
\<close>

record 'a model =
  own_params :: "'a params"
  patch_embed :: "'a patch_embed"
  blocks :: "'a block list"
  norm :: "'a layer"
  fc_norm :: "'a layer"
  head_drop :: "'a layer"
  head :: "'a layer"

fun block_params :: "'a block \<Rightarrow> 'a params" where
  "block_params (AttnBlock ps) = ps"
| "block_params (MixerBlock a b c d ps) = ps"
| "block_params EmptyBlock = []"

fun layer_params :: "'a layer \<Rightarrow> 'a params" where
  "layer_params (Layer ps) = ps"
| "layer_params Identity = []"

definition prefixed :: "string \<Rightarrow> 'a params \<Rightarrow> 'a params" where
  "prefixed pre ps = map (\<lambda>(n, p). (pre @ n, p)) ps"

definition block_prefix :: "nat \<Rightarrow> string" where
  "block_prefix i = ''blocks.'' @ str_nat i @ ''.''"

text \<open>
  \<^verbatim>\<open>model.named_parameters()\<close>: every parameter of the module tree under its dotted
  name, a block's parameters under \<^verbatim>\<open>blocks.<position>.\<close>
\<close>

definition named_parameters :: "'a model \<Rightarrow> 'a params" where
  "named_parameters m =
     own_params m
     @ prefixed ''patch_embed.'' (proj (patch_embed m))
     @ concat (map (\<lambda>(i, b). prefixed (block_prefix i) (block_params b))
                   (enumerate 0 (blocks m)))
     @ prefixed ''norm.'' (layer_params (norm m))
     @ prefixed ''fc_norm.'' (layer_params (fc_norm m))
     @ prefixed ''head_drop.'' (layer_params (head_drop m))
     @ prefixed ''head.'' (layer_params (head m))"

text \<open>
  Parameters are objects that the code mutates in place while it walks
  \<^verbatim>\<open>named_parameters()\<close>. \<open>update_parameters f\<close> is that walk: it rewrites every
  parameter of the tree by \<open>f\<close>, which sees the parameter's full name.
\<close>

definition update_named :: "(string \<Rightarrow> 'a param \<Rightarrow> 'a param) \<Rightarrow> string \<Rightarrow> 'a params \<Rightarrow> 'a params" where
  "update_named f pre ps = map (\<lambda>(n, p). (n, f (pre @ n) p)) ps"

fun update_block :: "(string \<Rightarrow> 'a param \<Rightarrow> 'a param) \<Rightarrow> string \<Rightarrow> 'a block \<Rightarrow> 'a block" where
  "update_block f pre (AttnBlock ps) = AttnBlock (update_named f pre ps)"
| "update_block f pre (MixerBlock a b c d ps) = MixerBlock a b c d (update_named f pre ps)"
| "update_block f pre EmptyBlock = EmptyBlock"

fun update_layer :: "(string \<Rightarrow> 'a param \<Rightarrow> 'a param) \<Rightarrow> string \<Rightarrow> 'a layer \<Rightarrow> 'a layer" where
  "update_layer f pre (Layer ps) = Layer (update_named f pre ps)"
| "update_layer f pre Identity = Identity"

definition update_parameters :: "(string \<Rightarrow> 'a param \<Rightarrow> 'a param) \<Rightarrow> 'a model \<Rightarrow> 'a model" where
  "update_parameters f m =
     m\<lparr> own_params := update_named f [] (own_params m),
        patch_embed := (patch_embed m)\<lparr> proj := update_named f ''patch_embed.'' (proj (patch_embed m)) \<rparr>,
        blocks := map (\<lambda>(i, b). update_block f (block_prefix i) b) (enumerate 0 (blocks m)),
        norm := update_layer f ''norm.'' (norm m),
        fc_norm := update_layer f ''fc_norm.'' (fc_norm m),
        head_drop := update_layer f ''head_drop.'' (head_drop m),
        head := update_layer f ''head.'' (head m) \<rparr>"

section \<open>Selective gradient controller\<close>

text \<open>
  \<^verbatim>\<open>
  def set_requires_grad(model, targets, freeze=True):
      target_names = []
      for target in targets:
          target_name = f"blocks.{target}"
          target_names.append(target_name)
      for name, param in model.named_parameters():
          if any(target in name for target in target_names):
              param.requires_grad = not freeze
          else:
              param.requires_grad = freeze
  \<close>
  \<^verbatim>\<open>target in name\<close> on strings is the substring test, \<^const>\<open>sublist\<close>.
\<close>

definition target_names :: "int list \<Rightarrow> string list" where
  "target_names targets = map (\<lambda>target. ''blocks.'' @ str_int target) targets"

definition set_requires_grad :: "'a model \<Rightarrow> int list \<Rightarrow> bool \<Rightarrow> 'a model" where
  "set_requires_grad m targets freeze =
     update_parameters
       (\<lambda>name p.
          if list_ex (\<lambda>target. sublist target name) (target_names targets)
          then p\<lparr> requires_grad := \<not> freeze \<rparr>
          else p\<lparr> requires_grad := freeze \<rparr>)
       m"

section \<open>Imported collaborators\<close>

text \<open>
  \<^verbatim>\<open>main.py\<close> imports \<^verbatim>\<open>param_dict\<close>, \<^verbatim>\<open>MixerBlock\<close> and \<^verbatim>\<open>EmptyBlock\<close> from \<^verbatim>\<open>models\<close>,
  \<^verbatim>\<open>build_dataset\<close> from \<^verbatim>\<open>datasets\<close>, \<^verbatim>\<open>train_model\<close> from \<^verbatim>\<open>train\<close>, \<^verbatim>\<open>create_model\<close> from
  timm and the checkpoint readers and the bicubic resampling from torch. None of these
  is defined in \<^verbatim>\<open>main.py\<close>; they are the fields of an environment that every function
  of the script takes, so that every statement below holds for whatever they are.
  \<^item> \<open>param_dict\<close>: the table, a dictionary of dictionaries.
  \<^item> \<open>mixer_params\<close>: the freshly initialised named parameters of a \<^verbatim>\<open>MixerBlock\<close> built
    from four hyperparameters.
  \<^item> \<open>bicubic\<close>: the resampling kernel of \<^verbatim>\<open>torch.nn.functional.interpolate\<close> on one
    channel: from the input plane (a list of rows) and the output size, the value at an
    output row and column.
  \<^item> \<open>hub_load\<close>, \<open>torch_load\<close>: \<^verbatim>\<open>torch.hub.load_state_dict_from_url\<close> and \<^verbatim>\<open>torch.load\<close>.
  \<^item> \<open>build_dataset\<close> (its class count), \<open>create_model\<close> (model name, class count, image
    size) and \<open>train_model\<close> (student, teacher, trainable parameter count; it stands for
    everything from the construction of the optimizer to the end of training).
\<close>

record 'a env =
  param_dict :: "string \<rightharpoonup> (string \<rightharpoonup> int)"
  mixer_params :: "int \<Rightarrow> int \<Rightarrow> int \<Rightarrow> int \<Rightarrow> 'a params"
  bicubic :: "'a list list \<Rightarrow> nat \<Rightarrow> nat \<Rightarrow> nat \<Rightarrow> 'a"
  hub_load :: "string \<Rightarrow> error + (string \<rightharpoonup> (string \<rightharpoonup> 'a tensor))"
  torch_load :: "string \<Rightarrow> error + (string \<rightharpoonup> (string \<rightharpoonup> 'a tensor))"
  build_dataset :: "bool \<Rightarrow> error + int"
  create_model :: "string \<Rightarrow> int \<Rightarrow> int \<Rightarrow> error + 'a model"
  train_model :: "'a model \<Rightarrow> 'a model \<Rightarrow> nat \<Rightarrow> error + unit"

section \<open>Block replacer\<close>

text \<open>
  \<^verbatim>\<open>
  def replace_att2mixer(model, repl_blocks, model_name):
      for blk_index in repl_blocks:
          mlp_block = MixerBlock(param_dict[model_name]["num_patches"],
                                 param_dict[model_name]["token_hid_dim"],
                                 param_dict[model_name]["channels_dim"],
                                 param_dict[model_name]["channels_hid_dim"])
          mlp_block.to("cuda")
          model.blocks[blk_index] = mlp_block
      return model
  \<close>
  The four arguments are looked up in order, each through \<^verbatim>\<open>param_dict[model_name]\<close>, in
  every round of the loop. The move to the device does not change what the block is
  and is left out.
\<close>

definition hyperparameter :: "'a env \<Rightarrow> string \<Rightarrow> string \<Rightarrow> error + int" where
  "hyperparameter E model_name key = ebind (lookup (param_dict E) model_name) (\<lambda>entry. lookup entry key)"

definition new_mixer_block :: "'a env \<Rightarrow> string \<Rightarrow> error + 'a block" where
  "new_mixer_block E model_name =
     ebind (hyperparameter E model_name ''num_patches'') (\<lambda>a.
     ebind (hyperparameter E model_name ''token_hid_dim'') (\<lambda>b.
     ebind (hyperparameter E model_name ''channels_dim'') (\<lambda>c.
     ebind (hyperparameter E model_name ''channels_hid_dim'') (\<lambda>d.
     Inr (MixerBlock a b c d (mixer_params E a b c d))))))"

fun replace_att2mixer :: "'a env \<Rightarrow> 'a model \<Rightarrow> int list \<Rightarrow> string \<Rightarrow> error + 'a model" where
  "replace_att2mixer E m [] model_name = Inr m"
| "replace_att2mixer E m (blk_index # rest) model_name =
     ebind (new_mixer_block E model_name) (\<lambda>mlp_block.
     ebind (seq_set (blocks m) blk_index mlp_block) (\<lambda>bs.
     replace_att2mixer E (m\<lparr> blocks := bs \<rparr>) rest model_name))"

section \<open>Depth truncator\<close>

text \<open>
  \<^verbatim>\<open>
  def cut_extra_layers(model, max_index, depth = 12):
      for index in range(max_index + 1, depth):
          model.blocks[index] = EmptyBlock()
      model.norm = nn.Identity()
      model.fc_norm = nn.Identity()
      model.head_drop = nn.Identity()
      model.head = nn.Identity()
      return model
  \<close>
  \<^verbatim>\<open>range(a, b)\<close> is the list \<open>[a..b - 1]\<close> of integers.
\<close>

fun empty_blocks :: "'a block list \<Rightarrow> int list \<Rightarrow> error + 'a block list" where
  "empty_blocks bs [] = Inr bs"
| "empty_blocks bs (index # rest) =
     ebind (seq_set bs index EmptyBlock) (\<lambda>bs'. empty_blocks bs' rest)"

definition cut_extra_layers :: "'a model \<Rightarrow> int \<Rightarrow> int \<Rightarrow> error + 'a model" where
  "cut_extra_layers m max_index depth =
     ebind (empty_blocks (blocks m) [max_index + 1 .. depth - 1]) (\<lambda>bs.
     Inr (m\<lparr> blocks := bs, norm := Identity, fc_norm := Identity,
             head_drop := Identity, head := Identity \<rparr>))"

text \<open>The default of the third argument.\<close>

definition default_depth :: int where
  "default_depth = 12"

section \<open>Checkpoint loader\<close>

subsection \<open>Tensor operations\<close>

text \<open>
  \<^verbatim>\<open>int(x ** 0.5)\<close> for an integer \<open>x\<close>: the power of a negative integer is a complex
  number, which \<^verbatim>\<open>int\<close> rejects with TypeError; otherwise the square root is truncated.
  (The floating-point root of an integer below \<open>2^52\<close> truncates to the integer root.)
\<close>

definition isqrt :: "nat \<Rightarrow> nat" where
  "isqrt n = last (filter (\<lambda>r. r * r \<le> n) [0..<Suc n])"

definition int_sqrt :: "int \<Rightarrow> error + nat" where
  "int_sqrt x = (if x < 0 then Inl TypeError else Inr (isqrt (nat x)))"

text \<open>
  A slice bound \<open>k\<close> on a dimension of size \<open>n\<close>: a negative bound counts from the end,
  and the result is clamped to \<open>[0, n]\<close>.
\<close>

definition clamp_slice :: "nat \<Rightarrow> int \<Rightarrow> nat" where
  "clamp_slice n k = (if k < 0 then nat (int n + k) else min (nat k) n)"

text \<open>
  \<open>rows t lo len\<close> are \<open>len\<close> rows from row \<open>lo\<close> on, in every batch of a tensor of
  shape \<open>B # N # rest\<close>; a row is the \<open>prod_list rest\<close> elements under one index of the
  second dimension.
\<close>

definition rows :: "'a tensor \<Rightarrow> nat \<Rightarrow> nat \<Rightarrow> 'a list" where
  "rows t lo len =
     (case shape t of
        B # N # rest \<Rightarrow>
          concat (map (\<lambda>b. take (len * prod_list rest) (drop ((b * N + lo) * prod_list rest) (elems t)))
                      [0..<B])
      | _ \<Rightarrow> [])"

text \<open>
  \<open>row t b r\<close> is row \<open>r\<close> of batch \<open>b\<close>, that is \<^verbatim>\<open>t[b, r]\<close> flattened, of a tensor of
  shape \<open>B # N # rest\<close>.
\<close>

definition row :: "'a tensor \<Rightarrow> nat \<Rightarrow> nat \<Rightarrow> 'a list" where
  "row t b r =
     (case shape t of
        B # N # rest \<Rightarrow> take (prod_list rest) (drop ((b * N + r) * prod_list rest) (elems t))
      | _ \<Rightarrow> [])"

text \<open>\<^verbatim>\<open>t[:, :k]\<close> and \<^verbatim>\<open>t[:, k:]\<close>; a tensor of fewer than two dimensions has too many indices.\<close>

definition rows_upto :: "'a tensor \<Rightarrow> int \<Rightarrow> error + 'a tensor" where
  "rows_upto t k =
     (case shape t of
        B # N # rest \<Rightarrow>
          Inr \<lparr> shape = B # clamp_slice N k # rest, elems = rows t 0 (clamp_slice N k) \<rparr>
      | _ \<Rightarrow> Inl IndexError)"

definition rows_from :: "'a tensor \<Rightarrow> int \<Rightarrow> error + 'a tensor" where
  "rows_from t k =
     (case shape t of
        B # N # rest \<Rightarrow>
          Inr \<lparr> shape = B # (N - clamp_slice N k) # rest,
                elems = rows t (clamp_slice N k) (N - clamp_slice N k) \<rparr>
      | _ \<Rightarrow> Inl IndexError)"

text \<open>
  \<^verbatim>\<open>t.reshape(-1, d1, d2, d3)\<close>: the first dimension is inferred; RuntimeError when the
  other dimensions multiply to zero or do not divide the number of elements.
\<close>

definition reshape_infer :: "'a tensor \<Rightarrow> nat list \<Rightarrow> error + 'a tensor" where
  "reshape_infer t dims =
     (let known = prod_list dims; numel = prod_list (shape t) in
      if known = 0 \<or> numel mod known \<noteq> 0 then Inl RuntimeError
      else Inr \<lparr> shape = (numel div known) # dims, elems = elems t \<rparr>)"

text \<open>\<^verbatim>\<open>t.permute(0, 3, 1, 2)\<close> and \<^verbatim>\<open>t.permute(0, 2, 3, 1)\<close> on a tensor of four dimensions.\<close>

definition permute_0312 :: "'a tensor \<Rightarrow> error + 'a tensor" where
  "permute_0312 t =
     (case shape t of
        [B, H, W, C] \<Rightarrow>
          Inr \<lparr> shape = [B, C, H, W],
                elems = [elems t ! (((b * H + h) * W + w) * C + c).
                           b \<leftarrow> [0..<B], c \<leftarrow> [0..<C], h \<leftarrow> [0..<H], w \<leftarrow> [0..<W]] \<rparr>
      | _ \<Rightarrow> Inl RuntimeError)"

definition permute_0231 :: "'a tensor \<Rightarrow> error + 'a tensor" where
  "permute_0231 t =
     (case shape t of
        [B, C, H, W] \<Rightarrow>
          Inr \<lparr> shape = [B, H, W, C],
                elems = [elems t ! (((b * C + c) * H + h) * W + w).
                           b \<leftarrow> [0..<B], h \<leftarrow> [0..<H], w \<leftarrow> [0..<W], c \<leftarrow> [0..<C]] \<rparr>
      | _ \<Rightarrow> Inl RuntimeError)"

text \<open>
  \<^verbatim>\<open>torch.nn.functional.interpolate(t, size=(n, n), mode='bicubic', align_corners=False)\<close>
  on a tensor of shape \<open>[B, C, H, W]\<close>: every channel plane is resampled on its own to
  \<open>n\<close> rows and \<open>n\<close> columns by the kernel of the environment. torch refuses an input
  that is not of four dimensions, an empty plane and an empty output.
\<close>

definition plane :: "'a tensor \<Rightarrow> nat \<Rightarrow> nat \<Rightarrow> nat \<Rightarrow> 'a list list" where
  "plane t H W i = map (\<lambda>h. take W (drop ((i * H + h) * W) (elems t))) [0..<H]"

definition interpolate :: "('a list list \<Rightarrow> nat \<Rightarrow> nat \<Rightarrow> nat \<Rightarrow> 'a) \<Rightarrow> 'a tensor \<Rightarrow> nat \<Rightarrow> error + 'a tensor" where
  "interpolate K t n =
     (case shape t of
        [B, C, H, W] \<Rightarrow>
          if C = 0 \<or> H = 0 \<or> W = 0 \<or> n = 0 then Inl RuntimeError
          else Inr \<lparr> shape = [B, C, n, n],
                     elems = [K (plane t H W i) n h w.
                                i \<leftarrow> [0..<B * C], h \<leftarrow> [0..<n], w \<leftarrow> [0..<n]] \<rparr>
      | _ \<Rightarrow> Inl RuntimeError)"

text \<open>\<^verbatim>\<open>t.flatten(1, 2)\<close>: the second and third dimensions become one.\<close>

definition flatten_1_2 :: "'a tensor \<Rightarrow> error + 'a tensor" where
  "flatten_1_2 t =
     (case shape t of
        B # H # W # rest \<Rightarrow> Inr \<lparr> shape = B # (H * W) # rest, elems = elems t \<rparr>
      | _ \<Rightarrow> Inl IndexError)"

text \<open>
  \<^verbatim>\<open>torch.cat((x, y), dim=1)\<close>: the two tensors agree in every dimension but the second
  (RuntimeError otherwise); in every batch the rows of \<open>x\<close> come first.
\<close>

definition cat_dim1 :: "'a tensor \<Rightarrow> 'a tensor \<Rightarrow> error + 'a tensor" where
  "cat_dim1 x y =
     (case (shape x, shape y) of
        (B # Nx # rest, B' # Ny # rest') \<Rightarrow>
          if B = B' \<and> rest = rest'
          then Inr \<lparr> shape = B # (Nx + Ny) # rest,
                     elems = concat (map (\<lambda>b.
                                take (Nx * prod_list rest) (drop (b * Nx * prod_list rest) (elems x))
                                @ take (Ny * prod_list rest) (drop (b * Ny * prod_list rest) (elems y)))
                              [0..<B]) \<rparr>
          else Inl RuntimeError
      | _ \<Rightarrow> Inl RuntimeError)"

subsection \<open>The loader\<close>

text \<open>
  \<^verbatim>\<open>model.state_dict()\<close> maps every parameter name to its tensor, and \<^verbatim>\<open>model.pos_embed\<close> is
  the parameter of that name among the model's own.
\<close>

definition state_dict :: "'a model \<Rightarrow> (string \<rightharpoonup> 'a tensor)" where
  "state_dict m = (\<lambda>k. map_option data (map_of (named_parameters m) k))"

definition pos_embed :: "'a model \<Rightarrow> error + 'a param" where
  "pos_embed m = (case map_of (own_params m) ''pos_embed'' of None \<Rightarrow> Inl AttributeError | Some p \<Rightarrow> Inr p)"

text \<open>
  \<^verbatim>\<open>
  state_dict = model.state_dict()
  for k in ['head.weight', 'head.bias', 'head_dist.weight', 'head_dist.bias']:
      if k in checkpoint_model and checkpoint_model[k].shape != state_dict[k].shape:
          print(f"Removing key {k} from pretrained checkpoint")
          del checkpoint_model[k]
  \<close>
\<close>

definition head_keys :: "string list" where
  "head_keys = [''head.weight'', ''head.bias'', ''head_dist.weight'', ''head_dist.bias'']"

fun drop_head_keys :: "(string \<rightharpoonup> 'a tensor) \<Rightarrow> (string \<rightharpoonup> 'a tensor) \<Rightarrow> string list \<Rightarrow> error + (string \<rightharpoonup> 'a tensor)" where
  "drop_head_keys sd checkpoint_model [] = Inr checkpoint_model"
| "drop_head_keys sd checkpoint_model (k # ks) =
     (case checkpoint_model k of
        None \<Rightarrow> drop_head_keys sd checkpoint_model ks
      | Some t \<Rightarrow>
          ebind (lookup sd k) (\<lambda>s.
          if shape t \<noteq> shape s then drop_head_keys sd (checkpoint_model(k := None)) ks
          else drop_head_keys sd checkpoint_model ks))"

text \<open>
  \<^verbatim>\<open>
  pos_embed_checkpoint = checkpoint_model['pos_embed']
  embedding_size = pos_embed_checkpoint.shape[-1]
  num_patches = model.patch_embed.num_patches
  num_extra_tokens = model.pos_embed.shape[-2] - num_patches
  orig_size = int((pos_embed_checkpoint.shape[-2] - num_extra_tokens) ** 0.5)
  new_size = int(num_patches ** 0.5)
  extra_tokens = pos_embed_checkpoint[:, :num_extra_tokens]
  pos_tokens = pos_embed_checkpoint[:, num_extra_tokens:]
  pos_tokens = pos_tokens.reshape(-1, orig_size, orig_size, embedding_size).permute(0, 3, 1, 2)
  pos_tokens = torch.nn.functional.interpolate(
      pos_tokens, size=(new_size, new_size), mode='bicubic', align_corners=False)
  pos_tokens = pos_tokens.permute(0, 2, 3, 1).flatten(1, 2)
  new_pos_embed = torch.cat((extra_tokens, pos_tokens), dim=1)
  checkpoint_model['pos_embed'] = new_pos_embed
  \<close>
\<close>

definition num_extra_tokens :: "'a model \<Rightarrow> error + int" where
  "num_extra_tokens m =
     ebind (pos_embed m) (\<lambda>p.
     ebind (py_index (shape (data p)) (- 2)) (\<lambda>n.
     Inr (int n - num_patches (patch_embed m))))"

definition new_pos_embed :: "'a env \<Rightarrow> 'a model \<Rightarrow> 'a tensor \<Rightarrow> error + 'a tensor" where
  "new_pos_embed E m pos_embed_checkpoint =
     ebind (py_index (shape pos_embed_checkpoint) (- 1)) (\<lambda>embedding_size.
     ebind (num_extra_tokens m) (\<lambda>extra.
     ebind (py_index (shape pos_embed_checkpoint) (- 2)) (\<lambda>n.
     ebind (int_sqrt (int n - extra)) (\<lambda>orig_size.
     ebind (int_sqrt (num_patches (patch_embed m))) (\<lambda>new_size.
     ebind (rows_upto pos_embed_checkpoint extra) (\<lambda>extra_tokens.
     ebind (rows_from pos_embed_checkpoint extra) (\<lambda>pos_tokens.
     ebind (reshape_infer pos_tokens [orig_size, orig_size, embedding_size]) (\<lambda>pos_tokens.
     ebind (permute_0312 pos_tokens) (\<lambda>pos_tokens.
     ebind (interpolate (bicubic E) pos_tokens new_size) (\<lambda>pos_tokens.
     ebind (permute_0231 pos_tokens) (\<lambda>pos_tokens.
     ebind (flatten_1_2 pos_tokens) (\<lambda>pos_tokens.
     cat_dim1 extra_tokens pos_tokens))))))))))))"

definition interpolate_pos_embed :: "'a env \<Rightarrow> 'a model \<Rightarrow> (string \<rightharpoonup> 'a tensor) \<Rightarrow> error + (string \<rightharpoonup> 'a tensor)" where
  "interpolate_pos_embed E m checkpoint_model =
     ebind (lookup checkpoint_model ''pos_embed'') (\<lambda>pos_embed_checkpoint.
     ebind (new_pos_embed E m pos_embed_checkpoint) (\<lambda>t.
     Inr (checkpoint_model(''pos_embed'' \<mapsto> t))))"

text \<open>
  \<^verbatim>\<open>model.load_state_dict(checkpoint_model, strict=False)\<close>: every parameter of the model
  whose name is a key takes the tensor under that key. A key of another shape than the
  parameter raises RuntimeError, also when \<^verbatim>\<open>strict\<close> is false; keys the model lacks and
  parameters the dictionary lacks are passed over.
\<close>

definition load_state_dict :: "'a model \<Rightarrow> (string \<rightharpoonup> 'a tensor) \<Rightarrow> error + 'a model" where
  "load_state_dict m sd =
     (if list_ex (\<lambda>(n, p). case sd n of None \<Rightarrow> False | Some t \<Rightarrow> shape t \<noteq> shape (data p))
           (named_parameters m)
      then Inl RuntimeError
      else Inr (update_parameters (\<lambda>n p. case sd n of None \<Rightarrow> p | Some t \<Rightarrow> p\<lparr> data := t \<rparr>) m))"

text \<open>
  \<^verbatim>\<open>
  def load_weight(model, weight):
      if weight.startswith("https"):
          checkpoint = torch.hub.load_state_dict_from_url(
              weight, map_location="cpu", check_hash=True)
      else:
          checkpoint = torch.load(weight, map_location="cpu")
      checkpoint_model = checkpoint["model"]
      ...
      missing_keys, unexpected_keys = model.load_state_dict(checkpoint_model, strict=False)
      return model
  \<close>
\<close>

definition load_weight :: "'a env \<Rightarrow> 'a model \<Rightarrow> string \<Rightarrow> error + 'a model" where
  "load_weight E m weight =
     ebind (if prefix ''https'' weight then hub_load E weight else torch_load E weight) (\<lambda>checkpoint.
     ebind (lookup checkpoint ''model'') (\<lambda>checkpoint_model.
     ebind (drop_head_keys (state_dict m) checkpoint_model head_keys) (\<lambda>checkpoint_model.
     ebind (interpolate_pos_embed E m checkpoint_model) (\<lambda>checkpoint_model.
     load_state_dict m checkpoint_model))))"

subsection \<open>The two grid sizes\<close>

text \<open>
  The sizes that lines 122 and 124 compute: the side of the checkpoint's grid and the
  side of the model's grid.
  \<^verbatim>\<open>
  orig_size = int((pos_embed_checkpoint.shape[-2] - num_extra_tokens) ** 0.5)
  new_size = int(num_patches ** 0.5)
  \<close>
\<close>

definition orig_size :: "'a model \<Rightarrow> 'a tensor \<Rightarrow> error + nat" where
  "orig_size m pos_embed_checkpoint =
     ebind (num_extra_tokens m) (\<lambda>extra.
     ebind (py_index (shape pos_embed_checkpoint) (- 2)) (\<lambda>n.
     int_sqrt (int n - extra)))"

definition new_size :: "'a model \<Rightarrow> error + nat" where
  "new_size m = int_sqrt (num_patches (patch_embed m))"

text \<open>
  Modelled from the spec: the bicubic kernel of \<^verbatim>\<open>torch.nn.functional.interpolate\<close>, which
  \<^verbatim>\<open>main.py\<close> calls and does not define. The spec says of it that resampling is an
  identity operation when sizes match: on a plane of \<open>n\<close> rows and \<open>n\<close> columns,
  resampled to \<open>n\<close> rows and \<open>n\<close> columns, the value at a row and column of the output
  is the value of the plane there. Nothing is said of the kernel at other sizes.
\<close>

definition identity_at_equal_size :: "('a list list \<Rightarrow> nat \<Rightarrow> nat \<Rightarrow> nat \<Rightarrow> 'a) \<Rightarrow> bool" where
  "identity_at_equal_size K =
     (\<forall>img n h w. length img = n \<and> list_all (\<lambda>r. length r = n) img \<and> h < n \<and> w < n
        \<longrightarrow> K img n h w = img ! h ! w)"

section \<open>Orchestrator\<close>

text \<open>
  The fields of \<^verbatim>\<open>args\<close> that \<^verbatim>\<open>main\<close> passes to the functions above. \<^verbatim>\<open>--replace\<close> has no
  default: \<^verbatim>\<open>args.replace\<close> is \<^verbatim>\<open>None\<close> when the option is not given.
\<close>

record args =
  args_d_model :: string
  args_input_size :: int
  args_d_weight :: string
  args_replace :: "int list option"
  args_eval :: bool
  args_eval_model :: string
  args_train :: bool

text \<open>
  What \<^verbatim>\<open>main\<close> does to the world outside its own variables, in the order it does it:
  the calls of the collaborators that build datasets and models, read checkpoints and
  train.
\<close>

datatype 'a event =
    BuildDataset bool
  | CreateModel string int int
  | ReadCheckpoint string
  | TrainModel "'a model" "'a model" nat

text \<open>
  \<^verbatim>\<open>n_parameters = sum(p.numel() for p in partial_model.parameters() if p.requires_grad)\<close>
\<close>

definition n_parameters :: "'a model \<Rightarrow> nat" where
  "n_parameters m =
     sum_list (map (\<lambda>(n, p). prod_list (shape (data p)))
                   (filter (\<lambda>(n, p). requires_grad p) (named_parameters m)))"

text \<open>
  The branch \<^verbatim>\<open>elif args.train and not args.eval\<close>:
  \<^verbatim>\<open>
  model = load_weight(model_repl, args.d_weight)
  model_ori = load_weight(model_ori, args.d_weight)
  partial_model =  cut_extra_layers(model, max(args.replace))
  partial_model_ori = cut_extra_layers(model_ori, max(args.replace))
  set_requires_grad(partial_model, args.replace)
  set_requires_grad(partial_model_ori, [])
  n_parameters = ...
  train_model(args, partial_model, partial_model_ori, ...)
  \<close>
  Each function returns the events so far and either the error raised or the result.
\<close>

definition main_train :: "'a env \<Rightarrow> args \<Rightarrow> int list \<Rightarrow> 'a model \<Rightarrow> 'a model \<Rightarrow> 'a event list \<times> (error + unit)" where
  "main_train E a repl model_repl model_ori =
     (case load_weight E model_repl (args_d_weight a) of
        Inl e \<Rightarrow> ([ReadCheckpoint (args_d_weight a)], Inl e)
      | Inr model \<Rightarrow>
     (case load_weight E model_ori (args_d_weight a) of
        Inl e \<Rightarrow> ([ReadCheckpoint (args_d_weight a), ReadCheckpoint (args_d_weight a)], Inl e)
      | Inr model_ori' \<Rightarrow>
     (case ebind (py_max repl) (\<lambda>max_index.
           ebind (cut_extra_layers model max_index default_depth) (\<lambda>partial_model.
           ebind (cut_extra_layers model_ori' max_index default_depth) (\<lambda>partial_model_ori.
           Inr (set_requires_grad partial_model repl True,
                set_requires_grad partial_model_ori [] True)))) of
        Inl e \<Rightarrow> ([ReadCheckpoint (args_d_weight a), ReadCheckpoint (args_d_weight a)], Inl e)
      | Inr (partial_model, partial_model_ori) \<Rightarrow>
          ([ReadCheckpoint (args_d_weight a), ReadCheckpoint (args_d_weight a),
            TrainModel partial_model partial_model_ori (n_parameters partial_model)],
           train_model E partial_model partial_model_ori (n_parameters partial_model)))))"

text \<open>
  The branch \<^verbatim>\<open>if args.eval and not args.train\<close>:
  \<^verbatim>\<open>model = load_weight(model_repl, args.eval_model)\<close>; the evaluation itself is a comment.
\<close>

definition main_eval :: "'a env \<Rightarrow> args \<Rightarrow> 'a model \<Rightarrow> 'a event list \<times> (error + unit)" where
  "main_eval E a model_repl =
     ([ReadCheckpoint (args_eval_model a)],
      ebind (load_weight E model_repl (args_eval_model a)) (\<lambda>model. Inr ()))"

text \<open>
  \<^verbatim>\<open>
  def main(args):
      ...
      dataset_train, args.nb_classes = build_dataset(is_train=True, args=args)
      dataset_val, _ = build_dataset(is_train=False, args=args)
      ...
      model_deit = create_model(args.d_model, pretrained=False, num_classes=args.nb_classes,
                                ..., img_size=args.input_size)
      model_ori = copy.deepcopy(model_deit)
      model_repl = replace_att2mixer(model=model_deit, repl_blocks=args.replace,
                                     model_name = args.d_model)
      if args.eval and not args.train:
          ...
      elif args.train and not args.eval:
          ...
      else:
          raise ValueError("Please specify running mode (eval/train).")
  \<close>
  Iterating over \<^verbatim>\<open>None\<close> in \<^verbatim>\<open>replace_att2mixer\<close> is a TypeError. The deep copy is the
  value \<open>model_deit\<close> itself, taken before the replacement.
\<close>

definition main_mode :: "'a env \<Rightarrow> args \<Rightarrow> int list \<Rightarrow> 'a model \<Rightarrow> 'a model \<Rightarrow> 'a event list \<times> (error + unit)" where
  "main_mode E a repl model_repl model_ori =
     (if args_eval a \<and> \<not> args_train a then main_eval E a model_repl
      else if args_train a \<and> \<not> args_eval a then main_train E a repl model_repl model_ori
      else ([], Inl ValueError))"

definition main :: "'a env \<Rightarrow> args \<Rightarrow> 'a event list \<times> (error + unit)" where
  "main E a =
     (case build_dataset E True of
        Inl e \<Rightarrow> ([BuildDataset True], Inl e)
      | Inr nb_classes \<Rightarrow>
     (case build_dataset E False of
        Inl e \<Rightarrow> ([BuildDataset True, BuildDataset False], Inl e)
      | Inr _ \<Rightarrow>
     (case create_model E (args_d_model a) nb_classes (args_input_size a) of
        Inl e \<Rightarrow>
          ([BuildDataset True, BuildDataset False,
            CreateModel (args_d_model a) nb_classes (args_input_size a)], Inl e)
      | Inr model_deit \<Rightarrow>
     (case (case args_replace a of
              None \<Rightarrow> Inl TypeError
            | Some repl \<Rightarrow> ebind (replace_att2mixer E model_deit repl (args_d_model a))
                              (\<lambda>model_repl. Inr (repl, model_repl))) of
        Inl e \<Rightarrow>
          ([BuildDataset True, BuildDataset False,
            CreateModel (args_d_model a) nb_classes (args_input_size a)], Inl e)
      | Inr (repl, model_repl) \<Rightarrow>
          (case main_mode E a repl model_repl model_deit of
             (evs, r) \<Rightarrow>
               ([BuildDataset True, BuildDataset False,
                 CreateModel (args_d_model a) nb_classes (args_input_size a)] @ evs, r))))))"

section \<open>Concrete inputs\<close>

text \<open>
  A small model of the shape the script works on (any number of attention blocks, one
  class token and one patch), two checkpoints for it, and an environment whose
  collaborators succeed. They are the inputs at which the theorems below are evaluated.
\<close>

definition scalar_param :: "int param" where
  "scalar_param = \<lparr> data = \<lparr> shape = [1], elems = [0] \<rparr>, requires_grad = True \<rparr>"

definition example_model :: "nat \<Rightarrow> int model" where
  "example_model depth =
     \<lparr> own_params = [(''cls_token'', \<lparr> data = \<lparr> shape = [1, 1, 1], elems = [7] \<rparr>, requires_grad = True \<rparr>),
                     (''pos_embed'', \<lparr> data = \<lparr> shape = [1, 2, 1], elems = [8, 9] \<rparr>, requires_grad = True \<rparr>)],
       patch_embed = \<lparr> num_patches = 1, proj = [(''proj.weight'', scalar_param)] \<rparr>,
       blocks = replicate depth (AttnBlock [(''mlp.fc1.weight'', scalar_param)]),
       norm = Layer [(''weight'', scalar_param)],
       fc_norm = Identity,
       head_drop = Layer [],
       head = Layer [(''weight'', scalar_param)] \<rparr>"

definition example_checkpoint :: "string \<rightharpoonup> (string \<rightharpoonup> int tensor)" where
  "example_checkpoint =
     [''model'' \<mapsto> [''pos_embed'' \<mapsto> \<lparr> shape = [1, 2, 1], elems = [3, 4] \<rparr>,
                     ''blocks.0.mlp.fc1.weight'' \<mapsto> \<lparr> shape = [1], elems = [5] \<rparr>]]"

definition distilled_checkpoint :: "string \<rightharpoonup> (string \<rightharpoonup> int tensor)" where
  "distilled_checkpoint =
     [''model'' \<mapsto> [''pos_embed'' \<mapsto> \<lparr> shape = [1, 3, 1], elems = [3, 4, 5] \<rparr>,
                     ''head.weight'' \<mapsto> \<lparr> shape = [1], elems = [1] \<rparr>,
                     ''head_dist.weight'' \<mapsto> \<lparr> shape = [1], elems = [2] \<rparr>]]"

definition example_env :: "nat \<Rightarrow> int env" where
  "example_env depth =
     \<lparr> param_dict = [''deit_tiny_patch16_224'' \<mapsto>
                       [''num_patches'' \<mapsto> 196, ''token_hid_dim'' \<mapsto> 384,
                        ''channels_dim'' \<mapsto> 192, ''channels_hid_dim'' \<mapsto> 768]],
       mixer_params = (\<lambda>a b c d. [(''token_mixing.fc1.weight'', scalar_param)]),
       bicubic = (\<lambda>img n h w. img ! 0 ! 0),
       hub_load = (\<lambda>url. Inr example_checkpoint),
       torch_load = (\<lambda>path. Inr distilled_checkpoint),
       build_dataset = (\<lambda>is_train. Inr 100),
       create_model = (\<lambda>name num_classes img_size. Inr (example_model depth)),
       train_model = (\<lambda>student teacher n. Inr ()) \<rparr>"

definition example_args :: "int list \<Rightarrow> bool \<Rightarrow> bool \<Rightarrow> args" where
  "example_args repl tr ev =
     \<lparr> args_d_model = ''deit_tiny_patch16_224'', args_input_size = 224,
       args_d_weight = ''https://dl.fbaipublicfiles.com/deit/deit_tiny_patch16_224-a1311bcf.pth'',
       args_replace = Some repl, args_eval = ev, args_eval_model = ''deit_tiny_distilled.pth'',
       args_train = tr \<rparr>"

text \<open>
  A model with a grid of two by two patches and one class token, and a checkpoint whose
  positional embedding has one class token and a grid of one patch.
\<close>

definition grid_model :: "int model" where
  "grid_model =
     (example_model 12)
       \<lparr> own_params := [(''cls_token'', \<lparr> data = \<lparr> shape = [1, 1, 2], elems = [7, 7] \<rparr>, requires_grad = True \<rparr>),
                        (''pos_embed'', \<lparr> data = \<lparr> shape = [1, 5, 2], elems = [0, 0, 0, 0, 0, 0, 0, 0, 0, 0] \<rparr>,
                                         requires_grad = True \<rparr>)],
         patch_embed := \<lparr> num_patches = 4, proj = [(''proj.weight'', scalar_param)] \<rparr> \<rparr>"

definition grid_checkpoint :: "string \<rightharpoonup> int tensor" where
  "grid_checkpoint = [''pos_embed'' \<mapsto> \<lparr> shape = [1, 2, 2], elems = [10, 11, 20, 21] \<rparr>]"

text \<open>
  A kernel that is the identity on a square plane resampled to its own size and takes
  the first value of the plane otherwise, a positional embedding of one class token
  and a grid of two by two patches, and an environment with that kernel whose
  checkpoint holds that embedding.
\<close>

definition example_kernel :: "int list list \<Rightarrow> nat \<Rightarrow> nat \<Rightarrow> nat \<Rightarrow> int" where
  "example_kernel img n h w =
     (if length img = n \<and> list_all (\<lambda>r. length r = n) img then img ! h ! w else img ! 0 ! 0)"

definition grid_tensor :: "int tensor" where
  "grid_tensor = \<lparr> shape = [1, 5, 2], elems = [10, 11, 20, 21, 30, 31, 40, 41, 50, 51] \<rparr>"

definition grid_env :: "int env" where
  "grid_env =
     (example_env 12)
       \<lparr> bicubic := example_kernel,
         hub_load := (\<lambda>url. Inr [''model'' \<mapsto> [''pos_embed'' \<mapsto> grid_tensor]]) \<rparr>"

section \<open>Properties\<close>

subsection \<open>Errors and item assignment\<close>

lemma ebind_Inr_iff: "ebind r f = Inr y \<longleftrightarrow> (\<exists>v. r = Inr v \<and> f v = Inr y)"
  by (cases r) (simp_all add: ebind_def)

lemma ebind_Inr [simp]: "ebind (Inr v) f = f v"
  by (simp add: ebind_def)

lemma ebind_Inl [simp]: "ebind (Inl e) f = Inl e"
  by (simp add: ebind_def)

lemma seq_set_Inr_iff:
  "seq_set xs i v = Inr ys \<longleftrightarrow>
     - int (length xs) \<le> i \<and> i < int (length xs) \<and> ys = xs[nat (i mod int (length xs)) := v]"
  by (auto simp: seq_set_def Let_def)

lemma seq_set_Inl_iff:
  "seq_set xs i v = Inl e \<longleftrightarrow> e = IndexError \<and> (i < - int (length xs) \<or> int (length xs) \<le> i)"
  by (auto simp: seq_set_def Let_def)

lemma empty_blocks_length: "empty_blocks bs ixs = Inr bs' \<Longrightarrow> length bs' = length bs"
  by (induction ixs arbitrary: bs) (auto simp: ebind_Inr_iff seq_set_Inr_iff)

lemma empty_blocks_nth:
  "empty_blocks bs ixs = Inr bs' \<Longrightarrow> p < length bs \<Longrightarrow>
   bs' ! p = (if \<exists>i\<in>set ixs. nat (i mod int (length bs)) = p then EmptyBlock else bs ! p)"
proof (induction ixs arbitrary: bs)
  case Nil
  then show ?case by simp
next
  case (Cons i ixs)
  from Cons.prems(1) obtain bs1 where s: "seq_set bs i EmptyBlock = Inr bs1"
    and r: "empty_blocks bs1 ixs = Inr bs'"
    by (auto simp: ebind_Inr_iff)
  from s have bs1: "bs1 = bs[nat (i mod int (length bs)) := EmptyBlock]"
    by (simp add: seq_set_Inr_iff)
  have len: "length bs1 = length bs" by (simp add: bs1)
  from Cons.IH[OF r] Cons.prems(2) len
  have "bs' ! p = (if \<exists>i\<in>set ixs. nat (i mod int (length bs)) = p then EmptyBlock else bs1 ! p)"
    by simp
  then show ?case using Cons.prems(2) by (auto simp: bs1 nth_list_update)
qed

lemma empty_blocks_Inr_iff:
  "(\<exists>bs'. empty_blocks bs ixs = Inr bs') \<longleftrightarrow>
   (\<forall>i\<in>set ixs. - int (length bs) \<le> i \<and> i < int (length bs))"
proof (induction ixs arbitrary: bs)
  case Nil
  then show ?case by simp
next
  case (Cons i ixs)
  show ?case
  proof (cases "- int (length bs) \<le> i \<and> i < int (length bs)")
    case True
    then have s: "seq_set bs i EmptyBlock = Inr (bs[nat (i mod int (length bs)) := EmptyBlock])"
      by (simp add: seq_set_Inr_iff)
    show ?thesis using True Cons.IH[of "bs[nat (i mod int (length bs)) := EmptyBlock]"]
      by (simp add: s)
  next
    case False
    then have "seq_set bs i EmptyBlock = Inl IndexError"
      by (auto simp: seq_set_Inl_iff)
    then show ?thesis using False by auto
  qed
qed

lemma empty_blocks_error: "empty_blocks bs ixs = Inl e \<Longrightarrow> e = IndexError"
  by (induction ixs arbitrary: bs) (auto simp: ebind_def seq_set_Inl_iff split: sum.splits)

subsection \<open>Walking the named parameters\<close>

lemma enumerate_map_snd:
  "enumerate n (map (\<lambda>(i, b). g i b) (enumerate n bs)) = map (\<lambda>(i, b). (i, g i b)) (enumerate n bs)"
  by (induction bs arbitrary: n) auto

lemma prefixed_update_named:
  "prefixed pre (update_named f pre ps) = map (\<lambda>(n, p). (n, f n p)) (prefixed pre ps)"
  by (induction ps) (auto simp: prefixed_def update_named_def)

lemma update_named_Nil: "update_named f [] ps = map (\<lambda>(n, p). (n, f n p)) ps"
  by (induction ps) (auto simp: update_named_def)

lemma block_params_update: "block_params (update_block f pre b) = update_named f pre (block_params b)"
  by (cases b) (auto simp: update_named_def)

lemma layer_params_update: "layer_params (update_layer f pre l) = update_named f pre (layer_params l)"
  by (cases l) (auto simp: update_named_def)

lemma blocks_params_update:
  "concat (map (\<lambda>(i, b). prefixed (block_prefix i) (block_params b))
       (enumerate k (map (\<lambda>(i, b). update_block f (block_prefix i) b) (enumerate k bs)))) =
   map (\<lambda>(n, p). (n, f n p))
     (concat (map (\<lambda>(i, b). prefixed (block_prefix i) (block_params b)) (enumerate k bs)))"
  by (induction bs arbitrary: k) (simp_all add: block_params_update prefixed_update_named)

lemma named_parameters_update:
  "named_parameters (update_parameters f m) = map (\<lambda>(n, p). (n, f n p)) (named_parameters m)"
  by (simp add: named_parameters_def update_parameters_def blocks_params_update
      layer_params_update prefixed_update_named update_named_Nil)

text \<open>
  What the controller leaves behind, for every model, target list and flag: a parameter
  whose name contains one of the target names has tracking \<open>\<not> freeze\<close>, every other
  parameter has tracking \<open>freeze\<close>. The names themselves are untouched.
\<close>

lemma set_requires_grad_flag:
  assumes "(name, p) \<in> set (named_parameters (set_requires_grad m targets freeze))"
  shows "requires_grad p =
     (if list_ex (\<lambda>target. sublist target name) (target_names targets) then \<not> freeze else freeze)"
  using assms by (auto simp: set_requires_grad_def named_parameters_update)

lemma set_requires_grad_names:
  "map fst (named_parameters (set_requires_grad m targets freeze)) = map fst (named_parameters m)"
  by (simp add: set_requires_grad_def named_parameters_update comp_def case_prod_unfold)

text \<open>
  C1. Claimed: after \<^verbatim>\<open>set_requires_grad\<close> with targets \<open>T\<close> and \<^verbatim>\<open>freeze=True\<close>, gradient
  tracking on a parameter is enabled if and only if its name contains \<^verbatim>\<open>blocks.<i>\<close> for
  some \<open>i\<close> in \<open>T\<close>. The code assigns \<^verbatim>\<open>not freeze\<close> to the matching parameters and
  \<^verbatim>\<open>freeze\<close> to the others, so with \<^verbatim>\<open>freeze=True\<close> it is the other way round: on a model
  of three blocks with target \<open>[1]\<close>, the one parameter of block 1 is the only one
  whose tracking is disabled.
\<close>

theorem set_requires_grad_disables_targets:
  "map (\<lambda>(n, p). (n, requires_grad p))
     (named_parameters (set_requires_grad (example_model 3) [1] True)) =
   [(''cls_token'', True), (''pos_embed'', True), (''patch_embed.proj.weight'', True),
    (''blocks.0.mlp.fc1.weight'', True), (''blocks.1.mlp.fc1.weight'', False),
    (''blocks.2.mlp.fc1.weight'', True), (''norm.weight'', True), (''head.weight'', True)]"
  by code_simp

text \<open>
  C2. Claimed: \<^verbatim>\<open>set_requires_grad\<close> with no targets and \<^verbatim>\<open>freeze=True\<close> (the call on the
  teacher copy) disables gradient tracking on every parameter. In the code no name
  matches, so every parameter gets \<^verbatim>\<open>freeze\<close>, which is \<^verbatim>\<open>True\<close>: on a model whose
  parameters were all frozen beforehand, the call enables tracking on every one of
  them.
\<close>

theorem set_requires_grad_no_targets_enables_all:
  "map (\<lambda>(n, p). (n, requires_grad p))
     (named_parameters (set_requires_grad
        (update_parameters (\<lambda>n p. p\<lparr> requires_grad := False \<rparr>) (example_model 3)) [] True)) =
   [(''cls_token'', True), (''pos_embed'', True), (''patch_embed.proj.weight'', True),
    (''blocks.0.mlp.fc1.weight'', True), (''blocks.1.mlp.fc1.weight'', True),
    (''blocks.2.mlp.fc1.weight'', True), (''norm.weight'', True), (''head.weight'', True)]"
  by code_simp

subsection \<open>Depth truncator\<close>

lemma upto_range_iff:
  fixes a d n :: int
  shows "(\<forall>i\<in>set [a + 1 .. d - 1]. - n \<le> i \<and> i < n) \<longleftrightarrow> (d \<le> a + 1 \<or> (- n \<le> a + 1 \<and> d \<le> n))"
proof (cases "d \<le> a + 1")
  case True
  then show ?thesis by simp
next
  case False
  then have "a + 1 \<in> set [a + 1 .. d - 1]" "d - 1 \<in> set [a + 1 .. d - 1]" by simp_all
  then have "(\<forall>i\<in>set [a + 1 .. d - 1]. - n \<le> i \<and> i < n) \<Longrightarrow> - n \<le> a + 1 \<and> d \<le> n"
    by fastforce
  moreover have "- n \<le> a + 1 \<and> d \<le> n \<Longrightarrow> (\<forall>i\<in>set [a + 1 .. d - 1]. - n \<le> i \<and> i < n)"
    by auto
  ultimately show ?thesis using False by blast
qed

text \<open>
  C3. For \<open>max_index < depth\<close>, \<^verbatim>\<open>cut_extra_layers\<close> returns exactly when the positions it
  assigns exist: when \<open>max_index = depth - 1\<close> (nothing to assign), or when
  \<open>max_index + 1\<close> is an index of the block sequence (negative indices included) and
  \<open>depth\<close> is at most its length; otherwise the first assignment out of range raises
  IndexError. When it returns, every block at a position above \<open>max_index\<close> and below
  \<open>depth\<close> is an \<^verbatim>\<open>EmptyBlock\<close>, the four layers \<^verbatim>\<open>norm\<close>, \<^verbatim>\<open>fc_norm\<close>, \<^verbatim>\<open>head_drop\<close> and \<^verbatim>\<open>head\<close>
  are \<^verbatim>\<open>nn.Identity\<close>, the embeddings are as before, and for \<open>max_index = depth - 1\<close> the
  block sequence is as before.
\<close>

theorem cut_extra_layers_truncates:
  assumes "max_index < depth"
  shows "(if max_index = depth - 1 \<or>
             (- int (length (blocks m)) \<le> max_index + 1 \<and> depth \<le> int (length (blocks m)))
          then \<exists>m'. cut_extra_layers m max_index depth = Inr m' \<and>
                 length (blocks m') = length (blocks m) \<and>
                 (\<forall>p. max_index < int p \<and> int p < depth \<longrightarrow>
                        p < length (blocks m') \<and> blocks m' ! p = EmptyBlock) \<and>
                 norm m' = Identity \<and> fc_norm m' = Identity \<and>
                 head_drop m' = Identity \<and> head m' = Identity \<and>
                 own_params m' = own_params m \<and> patch_embed m' = patch_embed m \<and>
                 (max_index = depth - 1 \<longrightarrow> blocks m' = blocks m)
          else cut_extra_layers m max_index depth = Inl IndexError)"
proof -
  let ?n = "int (length (blocks m))"
  let ?ixs = "[max_index + 1 .. depth - 1]"
  let ?ok = "max_index = depth - 1 \<or> (- ?n \<le> max_index + 1 \<and> depth \<le> ?n)"
  have ok_iff: "?ok \<longleftrightarrow> (\<forall>i\<in>set ?ixs. - ?n \<le> i \<and> i < ?n)"
    unfolding upto_range_iff using assms by linarith
  show ?thesis
  proof (cases ?ok)
    case True
    with ok_iff obtain bs where bs: "empty_blocks (blocks m) ?ixs = Inr bs"
      using empty_blocks_Inr_iff[of "blocks m" ?ixs] by auto
    let ?m' = "m\<lparr> blocks := bs, norm := Identity, fc_norm := Identity,
                   head_drop := Identity, head := Identity \<rparr>"
    have res: "cut_extra_layers m max_index depth = Inr ?m'"
      by (simp add: cut_extra_layers_def bs)
    have len: "length bs = length (blocks m)"
      using bs by (rule empty_blocks_length)
    have inr: "\<forall>i\<in>set ?ixs. - ?n \<le> i \<and> i < ?n"
      using True ok_iff by blast
    have cut: "p < length bs \<and> bs ! p = EmptyBlock" if "max_index < int p" "int p < depth" for p
    proof -
      have mem: "int p \<in> set ?ixs" using that by simp
      with inr have "int p < ?n" by blast
      then have p: "p < length (blocks m)" by simp
      then have "nat (int p mod ?n) = p" by simp
      with mem have "\<exists>i\<in>set ?ixs. nat (i mod ?n) = p" by blast
      with empty_blocks_nth[OF bs p] show ?thesis using p len by simp
    qed
    have edge: "bs = blocks m" if "max_index = depth - 1"
      using bs that by simp
    show ?thesis using True res len cut edge by simp
  next
    case False
    with ok_iff have "\<not> (\<exists>bs'. empty_blocks (blocks m) ?ixs = Inr bs')"
      using empty_blocks_Inr_iff[of "blocks m" ?ixs] by blast
    then obtain e where "empty_blocks (blocks m) ?ixs = Inl e"
      by (cases "empty_blocks (blocks m) ?ixs") auto
    moreover from this have "e = IndexError" by (rule empty_blocks_error)
    ultimately show ?thesis using False by (simp add: cut_extra_layers_def)
  qed
qed

theorem cut_extra_layers_truncates_witness:
  "(0::int) < 3 \<and> (2::int) < 3 \<and>
   (\<exists>m'. cut_extra_layers (example_model 3) 0 3 = Inr m' \<and>
         blocks m' ! 1 = EmptyBlock \<and> blocks m' ! 2 = EmptyBlock \<and>
         norm m' = Identity \<and> fc_norm m' = Identity \<and>
         head_drop m' = Identity \<and> head m' = Identity) \<and>
   (\<exists>m'. cut_extra_layers (example_model 3) 2 3 = Inr m' \<and>
         blocks m' = blocks (example_model 3) \<and>
         norm m' = Identity \<and> fc_norm m' = Identity \<and>
         head_drop m' = Identity \<and> head m' = Identity)"
proof -
  have h: "(0::int) < 3" "(2::int) < 3" by simp_all
  have len: "length (blocks (example_model 3)) = 3" by (simp add: example_model_def)
  from cut_extra_layers_truncates[OF h(1), of "example_model 3"] len
  obtain m' where m': "cut_extra_layers (example_model 3) 0 3 = Inr m'"
    and cut: "\<forall>p. 0 < int p \<and> int p < 3 \<longrightarrow> p < length (blocks m') \<and> blocks m' ! p = EmptyBlock"
    and ids: "norm m' = Identity" "fc_norm m' = Identity" "head_drop m' = Identity" "head m' = Identity"
    by auto
  from cut[rule_format, of 1] cut[rule_format, of 2]
  have "blocks m' ! 1 = EmptyBlock" "blocks m' ! 2 = EmptyBlock" by simp_all
  with m' ids have a: "\<exists>m'. cut_extra_layers (example_model 3) 0 3 = Inr m' \<and>
         blocks m' ! 1 = EmptyBlock \<and> blocks m' ! 2 = EmptyBlock \<and>
         norm m' = Identity \<and> fc_norm m' = Identity \<and>
         head_drop m' = Identity \<and> head m' = Identity"
    by blast
  from cut_extra_layers_truncates[OF h(2), of "example_model 3"]
  have b: "\<exists>m'. cut_extra_layers (example_model 3) 2 3 = Inr m' \<and>
         blocks m' = blocks (example_model 3) \<and>
         norm m' = Identity \<and> fc_norm m' = Identity \<and>
         head_drop m' = Identity \<and> head m' = Identity"
    by auto
  from h a b show ?thesis by blast
qed

subsection \<open>Block replacer\<close>

lemma hyperparameter_Some:
  "param_dict E model_name = Some entry \<Longrightarrow> entry key = Some v \<Longrightarrow> hyperparameter E model_name key = Inr v"
  by (simp add: hyperparameter_def lookup_def)

lemma hyperparameter_None:
  "param_dict E model_name = None \<Longrightarrow> hyperparameter E model_name key = Inl KeyError"
  by (simp add: hyperparameter_def lookup_def)

lemma new_mixer_block_Inr:
  assumes "param_dict E model_name = Some entry"
    and "entry ''num_patches'' = Some a" and "entry ''token_hid_dim'' = Some b"
    and "entry ''channels_dim'' = Some c" and "entry ''channels_hid_dim'' = Some d"
  shows "new_mixer_block E model_name = Inr (MixerBlock a b c d (mixer_params E a b c d))"
  using assms by (simp add: new_mixer_block_def hyperparameter_Some)

lemma new_mixer_block_None:
  "param_dict E model_name = None \<Longrightarrow> new_mixer_block E model_name = Inl KeyError"
  by (simp add: new_mixer_block_def hyperparameter_None)

lemma replace_att2mixer_Inr:
  assumes "new_mixer_block E model_name = Inr blk"
    and "\<forall>i\<in>set repl. - int (length (blocks m)) \<le> i \<and> i < int (length (blocks m))"
  shows "\<exists>bs. replace_att2mixer E m repl model_name = Inr (m\<lparr> blocks := bs \<rparr>) \<and>
              length bs = length (blocks m) \<and>
              (\<forall>p<length (blocks m).
                 bs ! p = (if \<exists>i\<in>set repl. nat (i mod int (length (blocks m))) = p then blk
                           else blocks m ! p))"
  using assms(2)
proof (induction repl arbitrary: m)
  case Nil
  show ?case by (rule exI[of _ "blocks m"]) simp
next
  case (Cons i repl)
  let ?n = "int (length (blocks m))"
  let ?bs1 = "(blocks m)[nat (i mod ?n) := blk]"
  let ?m1 = "m\<lparr> blocks := ?bs1 \<rparr>"
  from Cons.prems have i: "- ?n \<le> i \<and> i < ?n" by simp
  then have s: "seq_set (blocks m) i blk = Inr ?bs1"
    by (simp add: seq_set_Inr_iff)
  have "\<forall>j\<in>set repl. - int (length (blocks ?m1)) \<le> j \<and> j < int (length (blocks ?m1))"
    using Cons.prems by simp
  from Cons.IH[OF this] obtain bs where
    r: "replace_att2mixer E ?m1 repl model_name = Inr (?m1\<lparr> blocks := bs \<rparr>)"
    and len: "length bs = length (blocks m)"
    and nth: "\<forall>p<length (blocks m).
                bs ! p = (if \<exists>j\<in>set repl. nat (j mod ?n) = p then blk else ?bs1 ! p)"
    by auto
  have "replace_att2mixer E m (i # repl) model_name = Inr (m\<lparr> blocks := bs \<rparr>)"
    by (simp add: assms(1) s r)
  moreover have "\<forall>p<length (blocks m).
      bs ! p = (if \<exists>j\<in>set (i # repl). nat (j mod ?n) = p then blk else blocks m ! p)"
    using nth by (auto simp: nth_list_update)
  ultimately show ?case using len by blast
qed

lemma replace_att2mixer_no_block:
  "repl \<noteq> [] \<Longrightarrow> new_mixer_block E model_name = Inl e \<Longrightarrow> replace_att2mixer E m repl model_name = Inl e"
  by (cases repl) simp_all

lemma replace_att2mixer_out_of_range:
  assumes "\<exists>i\<in>set repl. i < - int (length (blocks m)) \<or> int (length (blocks m)) \<le> i"
  shows "\<exists>e. replace_att2mixer E m repl model_name = Inl e"
  using assms
proof (induction repl arbitrary: m)
  case Nil
  then show ?case by simp
next
  case (Cons i repl)
  show ?case
  proof (cases "new_mixer_block E model_name")
    case (Inl e)
    then show ?thesis by simp
  next
    case (Inr blk)
    show ?thesis
    proof (cases "seq_set (blocks m) i blk")
      case (Inl e)
      then show ?thesis using Inr by simp
    next
      case inr: (Inr bs)
      then have i: "- int (length (blocks m)) \<le> i \<and> i < int (length (blocks m))"
        and len: "length bs = length (blocks m)"
        by (simp_all add: seq_set_Inr_iff)
      with Cons.prems have "\<exists>j\<in>set repl. j < - int (length (blocks (m\<lparr> blocks := bs \<rparr>))) \<or>
           int (length (blocks (m\<lparr> blocks := bs \<rparr>))) \<le> j"
        by auto
      from Cons.IH[OF this] show ?thesis using Inr inr by simp
    qed
  qed
qed

text \<open>
  C4. For indices that are all positions of the block sequence and a model name whose
  table entry has the four hyperparameters, \<^verbatim>\<open>replace_att2mixer\<close> returns the model with
  only its block sequence changed: a \<^verbatim>\<open>MixerBlock\<close> built from exactly the entry's
  \<^verbatim>\<open>num_patches\<close>, \<^verbatim>\<open>token_hid_dim\<close>, \<^verbatim>\<open>channels_dim\<close> and \<^verbatim>\<open>channels_hid_dim\<close> at every listed
  position, the block that was there at every other position.
\<close>

theorem replace_att2mixer_positional:
  assumes "\<forall>i\<in>set repl. 0 \<le> i \<and> i < int (length (blocks m))"
    and "param_dict E model_name = Some entry"
    and "entry ''num_patches'' = Some a" and "entry ''token_hid_dim'' = Some b"
    and "entry ''channels_dim'' = Some c" and "entry ''channels_hid_dim'' = Some d"
  shows "\<exists>bs. replace_att2mixer E m repl model_name = Inr (m\<lparr> blocks := bs \<rparr>) \<and>
              length bs = length (blocks m) \<and>
              (\<forall>p<length (blocks m).
                 bs ! p = (if int p \<in> set repl then MixerBlock a b c d (mixer_params E a b c d)
                           else blocks m ! p))"
proof -
  let ?n = "int (length (blocks m))"
  let ?blk = "MixerBlock a b c d (mixer_params E a b c d)"
  have blk: "new_mixer_block E model_name = Inr ?blk"
    using assms(2-6) by (rule new_mixer_block_Inr)
  have rng: "\<forall>i\<in>set repl. - ?n \<le> i \<and> i < ?n"
    using assms(1) by auto
  have pos: "(\<exists>i\<in>set repl. nat (i mod ?n) = p) \<longleftrightarrow> int p \<in> set repl" for p
  proof
    assume "\<exists>i\<in>set repl. nat (i mod ?n) = p"
    then obtain i where i: "i \<in> set repl" "nat (i mod ?n) = p" by blast
    with assms(1) have "0 \<le> i \<and> i < ?n" by blast
    then have "i mod ?n = i" by simp
    with i \<open>0 \<le> i \<and> i < ?n\<close> have "int p = i" by auto
    with i show "int p \<in> set repl" by simp
  next
    assume p: "int p \<in> set repl"
    with assms(1) have "0 \<le> int p \<and> int p < ?n" by blast
    then have "nat (int p mod ?n) = p" by simp
    with p show "\<exists>i\<in>set repl. nat (i mod ?n) = p" by blast
  qed
  from replace_att2mixer_Inr[OF blk rng] show ?thesis
    by (simp add: pos)
qed

theorem replace_att2mixer_positional_witness:
  "\<exists>bs. replace_att2mixer (example_env 3) (example_model 3) [1] ''deit_tiny_patch16_224'' =
          Inr ((example_model 3)\<lparr> blocks := bs \<rparr>) \<and>
        length bs = 3 \<and>
        bs ! 0 = blocks (example_model 3) ! 0 \<and>
        bs ! 1 = MixerBlock 196 384 192 768 [(''token_mixing.fc1.weight'', scalar_param)] \<and>
        bs ! 2 = blocks (example_model 3) ! 2"
proof -
  let ?entry = "[''num_patches'' \<mapsto> 196, ''token_hid_dim'' \<mapsto> 384,
                 ''channels_dim'' \<mapsto> 192, ''channels_hid_dim'' \<mapsto> (768::int)]"
  have len: "length (blocks (example_model 3)) = 3" by (simp add: example_model_def)
  have idx: "\<forall>i\<in>set [1::int]. 0 \<le> i \<and> i < int (length (blocks (example_model 3)))"
    by (simp add: len)
  have pd: "param_dict (example_env 3) ''deit_tiny_patch16_224'' = Some ?entry"
    by (simp add: example_env_def)
  have keys: "?entry ''num_patches'' = Some 196" "?entry ''token_hid_dim'' = Some 384"
    "?entry ''channels_dim'' = Some 192" "?entry ''channels_hid_dim'' = Some 768"
    by simp_all
  have mp: "mixer_params (example_env 3) 196 384 192 768 = [(''token_mixing.fc1.weight'', scalar_param)]"
    by (simp add: example_env_def)
  from replace_att2mixer_positional[OF idx pd keys]
  obtain bs where r: "replace_att2mixer (example_env 3) (example_model 3) [1] ''deit_tiny_patch16_224'' =
          Inr ((example_model 3)\<lparr> blocks := bs \<rparr>)"
    and l: "length bs = length (blocks (example_model 3))"
    and nth: "\<forall>p<length (blocks (example_model 3)).
           bs ! p = (if int p \<in> set [1] then MixerBlock 196 384 192 768 (mixer_params (example_env 3) 196 384 192 768)
                     else blocks (example_model 3) ! p)"
    by blast
  from nth[rule_format, of 0] nth[rule_format, of 1] nth[rule_format, of 2] len mp
  have "bs ! 0 = blocks (example_model 3) ! 0"
    "bs ! 1 = MixerBlock 196 384 192 768 [(''token_mixing.fc1.weight'', scalar_param)]"
    "bs ! 2 = blocks (example_model 3) ! 2"
    by simp_all
  with r l len show ?thesis by auto
qed

text \<open>
  C5. Claimed: \<^verbatim>\<open>replace_att2mixer\<close> fails whenever the model name has no table entry, and
  whenever an index is outside \<open>[0, depth)\<close>. The table is only read inside the loop,
  and the item assignment takes a negative index from the end. So the function fails
  whenever the index list is not empty and the model name has no entry (with
  KeyError), and whenever an index is outside \<open>[-depth, depth)\<close>.
\<close>

theorem replace_att2mixer_fails:
  assumes "(repl \<noteq> [] \<and> param_dict E model_name = None) \<or>
           (\<exists>i\<in>set repl. i < - int (length (blocks m)) \<or> int (length (blocks m)) \<le> i)"
  shows "(\<exists>e. replace_att2mixer E m repl model_name = Inl e) \<and>
         (param_dict E model_name = None \<longrightarrow> replace_att2mixer E m repl model_name = Inl KeyError)"
proof -
  have ne: "repl \<noteq> []" using assms by auto
  have key: "replace_att2mixer E m repl model_name = Inl KeyError" if "param_dict E model_name = None"
    using ne that by (simp add: replace_att2mixer_no_block new_mixer_block_None)
  show ?thesis
  proof (cases "param_dict E model_name = None")
    case True
    then show ?thesis using key by simp
  next
    case False
    with assms have "\<exists>i\<in>set repl. i < - int (length (blocks m)) \<or> int (length (blocks m)) \<le> i"
      by blast
    then have "\<exists>e. replace_att2mixer E m repl model_name = Inl e"
      by (rule replace_att2mixer_out_of_range)
    then show ?thesis using False by blast
  qed
qed

theorem replace_att2mixer_fails_witness:
  "(\<exists>e. replace_att2mixer (example_env 3) (example_model 3) [3] ''deit_tiny_patch16_224'' = Inl e) \<and>
   replace_att2mixer (example_env 3) (example_model 3) [1] ''vit_unknown'' = Inl KeyError"
proof -
  have len: "length (blocks (example_model 3)) = 3" by (simp add: example_model_def)
  have a: "([3::int] \<noteq> [] \<and> param_dict (example_env 3) ''deit_tiny_patch16_224'' = None) \<or>
      (\<exists>i\<in>set [3::int]. i < - int (length (blocks (example_model 3))) \<or>
                           int (length (blocks (example_model 3))) \<le> i)"
    by (simp add: len)
  have none: "param_dict (example_env 3) ''vit_unknown'' = None"
    by (simp add: example_env_def)
  then have b: "([1::int] \<noteq> [] \<and> param_dict (example_env 3) ''vit_unknown'' = None) \<or>
      (\<exists>i\<in>set [1::int]. i < - int (length (blocks (example_model 3))) \<or>
                           int (length (blocks (example_model 3))) \<le> i)"
    by simp
  from replace_att2mixer_fails[OF a] replace_att2mixer_fails[OF b] none
  show ?thesis by blast
qed

text \<open>
  Where the claim as stated fails: an empty index list with a model name that has no
  entry, and the index \<open>-1\<close> on a model of three blocks, which replaces the last block.
\<close>

theorem replace_att2mixer_accepts_negative_index:
  "param_dict (example_env 3) ''vit_unknown'' = None \<and>
   replace_att2mixer (example_env 3) (example_model 3) [] ''vit_unknown'' = Inr (example_model 3) \<and>
   \<not> (0 \<le> (- 1 :: int)) \<and>
   replace_att2mixer (example_env 3) (example_model 3) [- 1] ''deit_tiny_patch16_224'' =
     Inr ((example_model 3)\<lparr> blocks :=
       [AttnBlock [(''mlp.fc1.weight'', scalar_param)],
        AttnBlock [(''mlp.fc1.weight'', scalar_param)],
        MixerBlock 196 384 192 768 [(''token_mixing.fc1.weight'', scalar_param)]] \<rparr>)"
  by code_simp

subsection \<open>Orchestrator: the mode flags\<close>

text \<open>
  C6. Claimed: with neither or both of \<^verbatim>\<open>--train\<close> and \<^verbatim>\<open>--eval\<close>, \<^verbatim>\<open>main\<close> raises a
  configuration error, and with neither it constructs no model before it raises. The
  mode is tested after the datasets are built, the model is created and copied and its
  blocks are replaced. So: when the two flags are equal and those steps succeed, \<^verbatim>\<open>main\<close>
  raises ValueError after exactly those steps, having read no checkpoint and trained
  nothing.
\<close>

theorem main_without_mode:
  assumes "args_train a = args_eval a"
    and "build_dataset E True = Inr nb_classes"
    and "build_dataset E False = Inr nb_val"
    and "create_model E (args_d_model a) nb_classes (args_input_size a) = Inr model_deit"
    and "args_replace a = Some repl"
    and "replace_att2mixer E model_deit repl (args_d_model a) = Inr model_repl"
  shows "main E a =
     ([BuildDataset True, BuildDataset False,
       CreateModel (args_d_model a) nb_classes (args_input_size a)], Inl ValueError)"
  using assms by (simp add: main_def main_mode_def)

theorem main_without_mode_witness:
  "main (example_env 12) (example_args [1] False False) =
     ([BuildDataset True, BuildDataset False, CreateModel ''deit_tiny_patch16_224'' 100 224],
      Inl ValueError) \<and>
   main (example_env 12) (example_args [1] True True) =
     ([BuildDataset True, BuildDataset False, CreateModel ''deit_tiny_patch16_224'' 100 224],
      Inl ValueError)"
proof -
  let ?E = "example_env 12"
  let ?a = "example_args [1] False False"
  let ?b = "example_args [1] True True"
  let ?m = "(example_model 12)\<lparr> blocks := (blocks (example_model 12))
             [1 := MixerBlock 196 384 192 768 [(''token_mixing.fc1.weight'', scalar_param)]] \<rparr>"
  have d: "build_dataset ?E True = Inr 100" "build_dataset ?E False = Inr 100"
    by (simp_all add: example_env_def)
  have a: "args_train ?a = args_eval ?a"
    "create_model ?E (args_d_model ?a) 100 (args_input_size ?a) = Inr (example_model 12)"
    "args_replace ?a = Some [1]"
    by (simp_all add: example_env_def example_args_def)
  have ra: "replace_att2mixer ?E (example_model 12) [1] (args_d_model ?a) = Inr ?m"
    by code_simp
  have b: "args_train ?b = args_eval ?b"
    "create_model ?E (args_d_model ?b) 100 (args_input_size ?b) = Inr (example_model 12)"
    "args_replace ?b = Some [1]"
    by (simp_all add: example_env_def example_args_def)
  have rb: "replace_att2mixer ?E (example_model 12) [1] (args_d_model ?b) = Inr ?m"
    by code_simp
  show ?thesis
    using main_without_mode[OF a(1) d a(2) a(3) ra] main_without_mode[OF b(1) d b(2) b(3) rb]
    by (simp add: example_args_def)
qed

text \<open>
  With neither flag set, the model has been created by the time ValueError is raised.
\<close>

theorem main_builds_model_before_mode_check:
  "args_train (example_args [1] False False) = False \<and>
   args_eval (example_args [1] False False) = False \<and>
   main (example_env 12) (example_args [1] False False) =
     ([BuildDataset True, BuildDataset False, CreateModel ''deit_tiny_patch16_224'' 100 224],
      Inl ValueError)"
  by code_simp

subsection \<open>Checkpoint loader: the head keys\<close>

lemma drop_head_keys_KeyError:
  "k \<in> set ks \<Longrightarrow> checkpoint_model k \<noteq> None \<Longrightarrow> sd k = None \<Longrightarrow>
   drop_head_keys sd checkpoint_model ks = Inl KeyError"
proof (induction ks arbitrary: checkpoint_model)
  case Nil
  then show ?case by simp
next
  case (Cons k' ks)
  show ?case
  proof (cases "k' = k")
    case True
    with Cons.prems show ?thesis by (auto simp: lookup_def)
  next
    case False
    with Cons.prems have k: "k \<in> set ks" by simp
    have upd: "(checkpoint_model(k' := None)) k \<noteq> None"
      using False Cons.prems(2) by simp
    have ih1: "drop_head_keys sd checkpoint_model ks = Inl KeyError"
      using k Cons.prems(2,3) by (rule Cons.IH)
    have ih2: "drop_head_keys sd (checkpoint_model(k' := None)) ks = Inl KeyError"
      using k upd Cons.prems(3) by (rule Cons.IH)
    show ?thesis
    proof (cases "checkpoint_model k'")
      case None
      then show ?thesis by (simp add: ih1)
    next
      case (Some t)
      then show ?thesis
        by (cases "sd k'") (simp_all add: lookup_def ih1 ih2)
    qed
  qed
qed

text \<open>
  C9. When the checkpoint holds one of the four head keys and the model's state dict
  does not, \<^verbatim>\<open>load_weight\<close> raises KeyError: the comparison of the shapes indexes the
  state dict whenever the key is in the checkpoint.
\<close>

theorem load_weight_head_key_error:
  assumes "(if prefix ''https'' weight then hub_load E weight else torch_load E weight) = Inr checkpoint"
    and "checkpoint ''model'' = Some checkpoint_model"
    and "k \<in> set head_keys"
    and "checkpoint_model k \<noteq> None"
    and "state_dict m k = None"
  shows "load_weight E m weight = Inl KeyError"
proof -
  have "drop_head_keys (state_dict m) checkpoint_model head_keys = Inl KeyError"
    using assms(3-5) by (rule drop_head_keys_KeyError)
  then show ?thesis
    using assms(1,2) by (simp add: load_weight_def lookup_def)
qed

theorem load_weight_head_key_error_witness:
  "load_weight (example_env 12) (example_model 12) ''deit_tiny_distilled.pth'' = Inl KeyError"
proof -
  let ?cm = "[''pos_embed'' \<mapsto> \<lparr> shape = [1, 3, 1], elems = [3, 4, 5 :: int] \<rparr>,
              ''head.weight'' \<mapsto> \<lparr> shape = [1], elems = [1] \<rparr>,
              ''head_dist.weight'' \<mapsto> \<lparr> shape = [1], elems = [2] \<rparr>]"
  have 1: "(if prefix ''https'' ''deit_tiny_distilled.pth''
            then hub_load (example_env 12) ''deit_tiny_distilled.pth''
            else torch_load (example_env 12) ''deit_tiny_distilled.pth'') = Inr distilled_checkpoint"
    by (simp add: example_env_def)
  have 2: "distilled_checkpoint ''model'' = Some ?cm"
    by (simp add: distilled_checkpoint_def)
  have 3: "''head_dist.weight'' \<in> set head_keys"
    by (simp add: head_keys_def)
  have 4: "?cm ''head_dist.weight'' \<noteq> None"
    by simp
  have 5: "state_dict (example_model 12) ''head_dist.weight'' = None"
    by code_simp
  from load_weight_head_key_error[OF 1 2 3 4 5] show ?thesis .
qed

subsection \<open>Checkpoint loader: the positional embedding\<close>

lemma length_concat_const:
  "(\<And>x. x \<in> set xs \<Longrightarrow> length (f x) = k) \<Longrightarrow> length (concat (map f xs)) = length xs * k"
  by (induction xs) simp_all

lemma drop_concat_chunks:
  assumes "\<And>i. i < n \<Longrightarrow> length (f i) = L" and "b < n"
  shows "drop (b * L) (concat (map f [0..<n])) = f b @ concat (map f [Suc b..<n])"
proof -
  have split: "[0..<n] = [0..<b] @ b # [Suc b..<n]"
    using assms(2) by (metis le_add2 le_add_same_cancel2 less_imp_add_positive upt_add_eq_append upt_conv_Cons)
  have len: "length (concat (map f [0..<b])) = b * L"
    using assms by (subst length_concat_const[where k = L]) auto
  show ?thesis
    by (subst split) (simp add: len)
qed

lemma row_of_chunks:
  assumes chunk: "\<And>i. i < B \<Longrightarrow> length (f i) = N * inner"
    and "b < B" and "r < N"
  shows "take inner (drop ((b * N + r) * inner) (concat (map f [0..<B]))) =
         take inner (drop (r * inner) (f b))"
proof -
  have "(b * N + r) * inner = r * inner + b * (N * inner)"
    by (simp add: algebra_simps)
  then have "drop ((b * N + r) * inner) (concat (map f [0..<B])) =
      drop (r * inner) (drop (b * (N * inner)) (concat (map f [0..<B])))"
    by simp
  also have "\<dots> = drop (r * inner) (f b @ concat (map f [Suc b..<B]))"
    using drop_concat_chunks[OF chunk assms(2)] by simp
  also have "\<dots> = drop (r * inner) (f b) @ concat (map f [Suc b..<B])"
  proof -
    have "r * inner \<le> N * inner" using assms(3) by simp
    then show ?thesis using chunk[OF assms(2)] by simp
  qed
  finally have d: "drop ((b * N + r) * inner) (concat (map f [0..<B])) =
      drop (r * inner) (f b) @ concat (map f [Suc b..<B])" .
  have "r * inner + inner \<le> N * inner"
  proof -
    have "Suc r \<le> N" using assms(3) by simp
    then have "Suc r * inner \<le> N * inner" by (rule mult_le_mono1)
    then show ?thesis by simp
  qed
  then have "inner \<le> length (drop (r * inner) (f b))"
    using chunk[OF assms(2)] by simp
  then show ?thesis by (simp add: d)
qed

lemma chunk_length:
  assumes "length xs = B * N * inner" and "b < B" and "lo + len \<le> N"
  shows "length (take (len * inner) (drop ((b * N + lo) * inner) xs)) = len * inner"
proof -
  have "b * N + lo + len \<le> b * N + N" using assms(3) by simp
  also have "\<dots> = Suc b * N" by simp
  also have "\<dots> \<le> B * N" using assms(2) by (intro mult_le_mono1) simp
  finally have "(b * N + lo + len) * inner \<le> B * N * inner" by (rule mult_le_mono1)
  then have "(b * N + lo) * inner + len * inner \<le> length xs"
    by (simp add: assms(1) algebra_simps)
  then show ?thesis by simp
qed

lemma rows_upto_shape:
  "rows_upto t k = Inr x \<Longrightarrow>
   \<exists>B N rest. shape t = B # N # rest \<and> shape x = B # clamp_slice N k # rest \<and>
              elems x = rows t 0 (clamp_slice N k)"
  by (auto simp: rows_upto_def split: list.splits)

lemma clamp_slice_le: "clamp_slice N k \<le> N"
  unfolding clamp_slice_def by (cases "k < 0") auto

lemma row_rows_upto:
  assumes "rows_upto t k = Inr x" and "well_formed t" and "shape t = B # N # rest"
    and "b < B" and "r < clamp_slice N k"
  shows "row x b r = row t b r"
proof -
  let ?len = "clamp_slice N k"
  let ?inner = "prod_list rest"
  let ?f = "\<lambda>b. take (?len * ?inner) (drop ((b * N + 0) * ?inner) (elems t))"
  from assms(1,3) have sx: "shape x = B # ?len # rest" and ex: "elems x = concat (map ?f [0..<B])"
    by (auto simp: rows_upto_def rows_def)
  have lt: "length (elems t) = B * N * ?inner"
    using assms(2,3) by (simp add: well_formed_def)
  have chunk: "length (?f i) = ?len * ?inner" if "i < B" for i
    using lt that by (rule chunk_length) (simp add: clamp_slice_le)
  have "row x b r = take ?inner (drop ((b * ?len + r) * ?inner) (concat (map ?f [0..<B])))"
    by (simp add: row_def sx ex)
  also have "\<dots> = take ?inner (drop (r * ?inner) (?f b))"
    using chunk assms(4,5) by (rule row_of_chunks)
  also have "\<dots> = take ?inner (drop (r * ?inner + b * N * ?inner) (elems t))"
  proof -
    have "Suc r \<le> ?len" using assms(5) by simp
    then have "Suc r * ?inner \<le> ?len * ?inner" by (rule mult_le_mono1)
    then have "?inner \<le> ?len * ?inner - r * ?inner" by simp
    then show ?thesis by (simp add: drop_take min_absorb2)
  qed
  also have "\<dots> = row t b r"
    by (simp add: row_def assms(3) algebra_simps)
  finally show ?thesis .
qed

lemma well_formed_rows_upto:
  assumes "rows_upto t k = Inr x" and "well_formed t"
  shows "well_formed x"
proof -
  from assms(1) obtain B N rest where st: "shape t = B # N # rest"
    and sx: "shape x = B # clamp_slice N k # rest"
    and ex: "elems x = rows t 0 (clamp_slice N k)"
    using rows_upto_shape by blast
  have lt: "length (elems t) = B * N * prod_list rest"
    using assms(2) st by (simp add: well_formed_def)
  have "length (elems x) = length [0..<B] * (clamp_slice N k * prod_list rest)"
    unfolding ex rows_def st list.case
  proof (rule length_concat_const)
    fix b assume "b \<in> set [0..<B]"
    then have "b < B" by simp
    with lt show "length (take (clamp_slice N k * prod_list rest)
        (drop ((b * N + 0) * prod_list rest) (elems t))) = clamp_slice N k * prod_list rest"
      by (rule chunk_length) (simp add: clamp_slice_le)
  qed
  then show ?thesis by (simp add: well_formed_def sx)
qed

lemma row_cat_dim1:
  assumes "cat_dim1 x y = Inr t'" and "well_formed x" and "well_formed y"
    and "shape x = B # Nx # rest" and "b < B" and "r < Nx"
  shows "row t' b r = row x b r"
proof -
  let ?inner = "prod_list rest"
  from assms(1,4) obtain Ny where sy: "shape y = B # Ny # rest"
    by (auto simp: cat_dim1_def split: list.splits if_splits)
  let ?cx = "\<lambda>b. take (Nx * ?inner) (drop (b * Nx * ?inner) (elems x))"
  let ?cy = "\<lambda>b. take (Ny * ?inner) (drop (b * Ny * ?inner) (elems y))"
  from assms(1,4) sy have st: "shape t' = B # (Nx + Ny) # rest"
    and et: "elems t' = concat (map (\<lambda>b. ?cx b @ ?cy b) [0..<B])"
    by (auto simp: cat_dim1_def)
  have lx: "length (elems x) = B * Nx * ?inner" and ly: "length (elems y) = B * Ny * ?inner"
    using assms(2,3,4) sy by (simp_all add: well_formed_def)
  have cx: "length (?cx i) = Nx * ?inner" if "i < B" for i
    using chunk_length[OF lx that, of 0 Nx] by simp
  have cy: "length (?cy i) = Ny * ?inner" if "i < B" for i
    using chunk_length[OF ly that, of 0 Ny] by simp
  have chunk: "length (?cx i @ ?cy i) = (Nx + Ny) * ?inner" if "i < B" for i
    using cx[OF that] cy[OF that] by (simp add: algebra_simps)
  have r': "r < Nx + Ny" using assms(6) by simp
  have le: "r * ?inner + ?inner \<le> Nx * ?inner"
  proof -
    have "Suc r \<le> Nx" using assms(6) by simp
    then have "Suc r * ?inner \<le> Nx * ?inner" by (rule mult_le_mono1)
    then show ?thesis by simp
  qed
  have "row t' b r = take ?inner (drop ((b * (Nx + Ny) + r) * ?inner) (concat (map (\<lambda>b. ?cx b @ ?cy b) [0..<B])))"
    by (simp add: row_def st et)
  also have "\<dots> = take ?inner (drop (r * ?inner) (?cx b @ ?cy b))"
    using chunk assms(5) r' by (rule row_of_chunks)
  also have "\<dots> = take ?inner (drop (r * ?inner) (?cx b))"
    using le cx[OF assms(5)] by simp
  also have "\<dots> = take ?inner (drop (r * ?inner + b * Nx * ?inner) (elems x))"
  proof -
    have "?inner \<le> Nx * ?inner - r * ?inner" using le by simp
    then show ?thesis by (simp add: drop_take min_absorb2)
  qed
  also have "\<dots> = row x b r"
    by (simp add: row_def assms(4) algebra_simps)
  finally show ?thesis .
qed

lemma permute_0231_flatten:
  assumes "permute_0231 u = Inr v" and "flatten_1_2 v = Inr y"
  shows "well_formed y \<and> (\<exists>B M C. shape y = [B, M, C])"
proof -
  from assms(1) obtain B C H W where su: "shape u = [B, C, H, W]"
    by (auto simp: permute_0231_def split: list.splits)
  with assms(1) have sv: "shape v = [B, H, W, C]"
    and ev: "elems v = [elems u ! (((b * C + c) * H + h) * W + w).
                           b \<leftarrow> [0..<B], h \<leftarrow> [0..<H], w \<leftarrow> [0..<W], c \<leftarrow> [0..<C]]"
    by (auto simp: permute_0231_def)
  have lv: "length (elems v) = B * (H * (W * C))"
    unfolding ev
    by (simp add: length_concat_const[where k = "H * (W * C)"]
        length_concat_const[where k = "W * C"] length_concat_const[where k = C])
  from assms(2) sv have sy: "shape y = [B, H * W, C]" and ey: "elems y = elems v"
    by (auto simp: flatten_1_2_def)
  show ?thesis
    by (simp add: well_formed_def sy ey lv algebra_simps)
qed

lemma new_pos_embed_parts:
  assumes "new_pos_embed E m t = Inr t'"
  shows "\<exists>k n x y. num_extra_tokens m = Inr k \<and> py_index (shape t) (- 2) = Inr n \<and> k \<le> int n \<and>
           rows_upto t k = Inr x \<and> well_formed y \<and> (\<exists>B M C. shape y = [B, M, C]) \<and>
           cat_dim1 x y = Inr t'"
proof -
  from assms obtain k n x u v y where
    k: "num_extra_tokens m = Inr k" and n: "py_index (shape t) (- 2) = Inr n"
    and "\<exists>s. int_sqrt (int n - k) = Inr s" and x: "rows_upto t k = Inr x"
    and v: "permute_0231 u = Inr v" and y: "flatten_1_2 v = Inr y"
    and c: "cat_dim1 x y = Inr t'"
    unfolding new_pos_embed_def ebind_Inr_iff by blast
  then have "k \<le> int n"
    by (auto simp: int_sqrt_def split: if_splits)
  with k n x c permute_0231_flatten[OF v y] show ?thesis by blast
qed

text \<open>
  C7. When the resampling of lines 117 to 134 returns, on a checkpoint whose positional
  embedding \<open>t\<close> has as many elements as its shape says, the dictionary holds a new
  tensor under \<^verbatim>\<open>pos_embed\<close> whose leading rows, as many as the model has extra tokens,
  are the rows of \<open>t\<close> in every batch; every other key of the dictionary is as before.
  This holds for every resampling kernel.
\<close>

theorem interpolate_pos_embed_keeps_extra_tokens:
  assumes "interpolate_pos_embed E m checkpoint_model = Inr checkpoint_model'"
    and "checkpoint_model ''pos_embed'' = Some t"
    and "well_formed t"
  shows "\<exists>t' k. checkpoint_model' ''pos_embed'' = Some t' \<and>
           num_extra_tokens m = Inr k \<and>
           (\<forall>b r. b < hd (shape t) \<and> int r < k \<longrightarrow> row t' b r = row t b r) \<and>
           (\<forall>key. key \<noteq> ''pos_embed'' \<longrightarrow> checkpoint_model' key = checkpoint_model key)"
proof -
  from assms(1,2) obtain t' where t': "new_pos_embed E m t = Inr t'"
    and cm': "checkpoint_model' = checkpoint_model(''pos_embed'' \<mapsto> t')"
    by (auto simp: interpolate_pos_embed_def lookup_def ebind_Inr_iff)
  from new_pos_embed_parts[OF t'] obtain k n x y B' M C where
    k: "num_extra_tokens m = Inr k" and n: "py_index (shape t) (- 2) = Inr n" and kn: "k \<le> int n"
    and x: "rows_upto t k = Inr x" and wy: "well_formed y" and sy: "shape y = [B', M, C]"
    and c: "cat_dim1 x y = Inr t'"
    by blast
  from x obtain B N rest where st: "shape t = B # N # rest"
    and sx: "shape x = B # clamp_slice N k # rest"
    using rows_upto_shape by blast
  from c sx sy have rest: "rest = [C]"
    by (auto simp: cat_dim1_def split: if_splits)
  with n st have nN: "n = N"
    by (simp add: py_index_def)
  have wx: "well_formed x" using x assms(3) by (rule well_formed_rows_upto)
  have rows: "row t' b r = row t b r" if "b < hd (shape t)" "int r < k" for b r
  proof -
    from that st have b: "b < B" by simp
    from that kn nN have "r < clamp_slice N k"
      by (auto simp: clamp_slice_def)
    with row_cat_dim1[OF c wx wy sx b] row_rows_upto[OF x assms(3) st b]
    show ?thesis by simp
  qed
  show ?thesis
    using k rows by (auto simp: cm')
qed

theorem interpolate_pos_embed_keeps_extra_tokens_witness:
  "interpolate_pos_embed (example_env 12) grid_model grid_checkpoint =
     Inr (grid_checkpoint(''pos_embed'' \<mapsto>
            \<lparr> shape = [1, 5, 2], elems = [10, 11, 20, 21, 20, 21, 20, 21, 20, 21] \<rparr>)) \<and>
   num_extra_tokens grid_model = Inr 1 \<and>
   row \<lparr> shape = [1, 5, 2], elems = [10, 11, 20, 21, 20, 21, 20, 21, 20, 21 :: int] \<rparr> 0 0 =
   row \<lparr> shape = [1, 2, 2], elems = [10, 11, 20, 21 :: int] \<rparr> 0 0"
proof -
  let ?t = "\<lparr> shape = [1, 2, 2], elems = [10, 11, 20, 21 :: int] \<rparr>"
  let ?t' = "\<lparr> shape = [1, 5, 2], elems = [10, 11, 20, 21, 20, 21, 20, 21, 20, 21 :: int] \<rparr>"
  have np: "new_pos_embed (example_env 12) grid_model ?t = Inr ?t'"
    by code_simp
  have h1: "interpolate_pos_embed (example_env 12) grid_model grid_checkpoint =
      Inr (grid_checkpoint(''pos_embed'' \<mapsto> ?t'))"
    using np by (simp add: interpolate_pos_embed_def lookup_def grid_checkpoint_def)
  have h2: "grid_checkpoint ''pos_embed'' = Some ?t"
    by (simp add: grid_checkpoint_def)
  have h3: "well_formed ?t"
    by (simp add: well_formed_def)
  have k: "num_extra_tokens grid_model = Inr 1"
    by code_simp
  from interpolate_pos_embed_keeps_extra_tokens[OF h1 h2 h3] k
  have "\<forall>b r. b < hd (shape ?t) \<and> int r < 1 \<longrightarrow> row ?t' b r = row ?t b r"
    by auto
  from this[rule_format, of 0 0] have "row ?t' 0 0 = row ?t 0 0" by simp
  with h1 k show ?thesis by simp
qed

subsection \<open>Checkpoint loader: resampling at equal grid sizes\<close>

text \<open>
  What the script does around the kernel, reshaping, permuting, flattening and
  concatenating, is the identity on the elements: the lists of elements are tabulations
  over nested index ranges. So when the kernel returns a square plane resampled to its
  own size as it is, the loader returns the positional embedding of the checkpoint.
\<close>

lemma map_nth_take_drop:
  "k + m \<le> length xs \<Longrightarrow> map (\<lambda>j. xs ! (k + j)) [0..<m] = take m (drop k xs)"
  by (rule nth_equalityI) auto

lemma concat_take_drop:
  "k + n * m \<le> length xs \<Longrightarrow>
   concat (map (\<lambda>i. take m (drop (k + i * m) xs)) [0..<n]) = take (n * m) (drop k xs)"
proof (induction n)
  case 0
  then show ?case by simp
next
  case (Suc n)
  then have le: "k + n * m \<le> length xs" by simp
  have "take (Suc n * m) (drop k xs) = take (n * m + m) (drop k xs)"
    by (simp add: add.commute)
  also have "\<dots> = take (n * m) (drop k xs) @ take m (drop (n * m) (drop k xs))"
    by (rule take_add)
  also have "\<dots> = take (n * m) (drop k xs) @ take m (drop (k + n * m) xs)"
    by (simp add: add.commute)
  finally show ?case using Suc.IH[OF le] by simp
qed

lemma tabulate2:
  assumes "k + n * m \<le> length xs"
  shows "concat (map (\<lambda>i. map (\<lambda>j. xs ! (k + i * m + j)) [0..<m]) [0..<n]) = take (n * m) (drop k xs)"
proof -
  have "map (\<lambda>j. xs ! (k + i * m + j)) [0..<m] = take m (drop (k + i * m) xs)" if "i < n" for i
  proof (rule map_nth_take_drop)
    have "Suc i * m \<le> n * m" using that by (intro mult_le_mono1) simp
    then show "k + i * m + m \<le> length xs" using assms by simp
  qed
  then have "concat (map (\<lambda>i. map (\<lambda>j. xs ! (k + i * m + j)) [0..<m]) [0..<n]) =
      concat (map (\<lambda>i. take m (drop (k + i * m) xs)) [0..<n])"
    by (intro arg_cong[where f = concat] map_cong) auto
  then show ?thesis using concat_take_drop[OF assms] by simp
qed

lemma nth_concat_chunks:
  assumes "\<And>i. i < n \<Longrightarrow> length (f i) = L" and "i < n" and "j < L"
  shows "concat (map f [0..<n]) ! (i * L + j) = f i ! j"
proof -
  have "concat (map f [0..<n]) ! (i * L + j) = drop (i * L) (concat (map f [0..<n])) ! j"
  proof -
    have "length (concat (map f [0..<n])) = n * L"
      using assms(1) by (subst length_concat_const[where k = L]) auto
    moreover have "Suc i * L \<le> n * L" using assms(2) by (intro mult_le_mono1) simp
    ultimately have "i * L + j \<le> length (concat (map f [0..<n]))" using assms(3) by simp
    then show ?thesis by simp
  qed
  also have "\<dots> = (f i @ concat (map f [Suc i..<n])) ! j"
    using drop_concat_chunks[OF assms(1,2)] by simp
  also have "\<dots> = f i ! j"
    using assms by (simp add: nth_append)
  finally show ?thesis .
qed

lemma length_tab2: "length (concat (map (\<lambda>i. map (f i) [0..<m]) [0..<n])) = n * m"
  by (subst length_concat_const[where k = m]) auto

lemma nth_tab4:
  assumes "b < B" and "c < C" and "h < H" and "w < W"
  shows "[g b c h w. b \<leftarrow> [0..<B], c \<leftarrow> [0..<C], h \<leftarrow> [0..<H], w \<leftarrow> [0..<W]]
           ! (((b * C + c) * H + h) * W + w) = g b c h w"
proof -
  let ?f3 = "\<lambda>b c h. map (\<lambda>w. g b c h w) [0..<W]"
  let ?f2 = "\<lambda>b c. concat (map (?f3 b c) [0..<H])"
  let ?f1 = "\<lambda>b. concat (map (?f2 b) [0..<C])"
  have l3: "length (?f3 b c h) = W" for b c h by simp
  have l2: "length (?f2 b c) = H * W" for b c
    by (subst length_concat_const[where k = W]) auto
  have l1: "length (?f1 b) = C * (H * W)" for b
    by (subst length_concat_const[where k = "H * W"]) (auto simp: l2)
  have i3: "h * W + w < H * W"
  proof -
    have "Suc h * W \<le> H * W" using assms(3) by (intro mult_le_mono1) simp
    then show ?thesis using assms(4) by simp
  qed
  have i2: "c * (H * W) + (h * W + w) < C * (H * W)"
  proof -
    have "Suc c * (H * W) \<le> C * (H * W)" using assms(2) by (intro mult_le_mono1) simp
    then show ?thesis using i3 by simp
  qed
  have idx: "((b * C + c) * H + h) * W + w = b * (C * (H * W)) + (c * (H * W) + (h * W + w))"
    by (simp add: algebra_simps)
  have "concat (map ?f1 [0..<B]) ! (b * (C * (H * W)) + (c * (H * W) + (h * W + w))) =
        ?f1 b ! (c * (H * W) + (h * W + w))"
    by (rule nth_concat_chunks) (simp_all add: l1 assms(1) i2)
  also have "\<dots> = ?f2 b c ! (h * W + w)"
    by (rule nth_concat_chunks) (simp_all add: l2 assms(2) i3)
  also have "\<dots> = ?f3 b c h ! w"
    by (rule nth_concat_chunks) (simp_all add: assms(3,4))
  also have "\<dots> = g b c h w"
    using assms(4) by simp
  finally show ?thesis by (simp add: idx)
qed

lemma length_tab4:
  "length [g b c h w. b \<leftarrow> [0..<B], c \<leftarrow> [0..<C], h \<leftarrow> [0..<H], w \<leftarrow> [0..<W]] = B * (C * (H * W))"
proof -
  have l2: "length (concat (map (\<lambda>h. map (\<lambda>w. g b c h w) [0..<W]) [0..<H])) = H * W" for b c
    by (subst length_concat_const[where k = W]) auto
  have l1: "length (concat (map (\<lambda>c. concat (map (\<lambda>h. map (\<lambda>w. g b c h w) [0..<W]) [0..<H])) [0..<C]))
      = C * (H * W)" for b
    by (subst length_concat_const[where k = "H * W"]) (auto simp: l2)
  show ?thesis
    by (subst length_concat_const[where k = "C * (H * W)"]) (auto simp: l1)
qed

lemma tab3_eq:
  assumes "k + M * (H * W) \<le> length xs"
  shows "[xs ! (k + (i * H + h) * W + w). i \<leftarrow> [0..<M], h \<leftarrow> [0..<H], w \<leftarrow> [0..<W]] =
         take (M * (H * W)) (drop k xs)"
proof -
  have inner: "concat (map (\<lambda>h. map (\<lambda>w. xs ! (k + (i * H + h) * W + w)) [0..<W]) [0..<H]) =
      take (H * W) (drop (k + i * (H * W)) xs)" if "i < M" for i
  proof -
    have "Suc i * (H * W) \<le> M * (H * W)" using that by (intro mult_le_mono1) simp
    then have le: "(k + i * (H * W)) + H * W \<le> length xs" using assms by simp
    have "concat (map (\<lambda>h. map (\<lambda>w. xs ! (k + (i * H + h) * W + w)) [0..<W]) [0..<H]) =
        concat (map (\<lambda>h. map (\<lambda>w. xs ! ((k + i * (H * W)) + h * W + w)) [0..<W]) [0..<H])"
      by (simp add: algebra_simps)
    also have "\<dots> = take (H * W) (drop (k + i * (H * W)) xs)"
      using le by (rule tabulate2)
    finally show ?thesis .
  qed
  have "[xs ! (k + (i * H + h) * W + w). i \<leftarrow> [0..<M], h \<leftarrow> [0..<H], w \<leftarrow> [0..<W]] =
      concat (map (\<lambda>i. take (H * W) (drop (k + i * (H * W)) xs)) [0..<M])"
    by (intro arg_cong[where f = concat] map_cong) (auto simp: inner)
  also have "\<dots> = take (M * (H * W)) (drop k xs)"
    using assms by (rule concat_take_drop)
  finally show ?thesis .
qed

lemma tab4_eq:
  assumes "length xs = B * (C * (H * W))"
  shows "[xs ! (((b * C + c) * H + h) * W + w).
            b \<leftarrow> [0..<B], c \<leftarrow> [0..<C], h \<leftarrow> [0..<H], w \<leftarrow> [0..<W]] = xs"
proof -
  have inner: "concat (map (\<lambda>c. concat (map (\<lambda>h. map (\<lambda>w. xs ! (((b * C + c) * H + h) * W + w)) [0..<W]) [0..<H])) [0..<C]) =
      take (C * (H * W)) (drop (0 + b * (C * (H * W))) xs)" if "b < B" for b
  proof -
    have "Suc b * (C * (H * W)) \<le> B * (C * (H * W))" using that by (intro mult_le_mono1) simp
    then have le: "b * (C * (H * W)) + C * (H * W) \<le> length xs" using assms by simp
    have "concat (map (\<lambda>c. concat (map (\<lambda>h. map (\<lambda>w. xs ! (((b * C + c) * H + h) * W + w)) [0..<W]) [0..<H])) [0..<C]) =
       [xs ! (b * (C * (H * W)) + (c * H + h) * W + w). c \<leftarrow> [0..<C], h \<leftarrow> [0..<H], w \<leftarrow> [0..<W]]"
      by (simp add: algebra_simps)
    also have "\<dots> = take (C * (H * W)) (drop (b * (C * (H * W))) xs)"
      using le by (rule tab3_eq)
    finally show ?thesis by simp
  qed
  have "[xs ! (((b * C + c) * H + h) * W + w).
            b \<leftarrow> [0..<B], c \<leftarrow> [0..<C], h \<leftarrow> [0..<H], w \<leftarrow> [0..<W]] =
      concat (map (\<lambda>b. take (C * (H * W)) (drop (0 + b * (C * (H * W))) xs)) [0..<B])"
    by (intro arg_cong[where f = concat] map_cong) (auto simp: inner)
  also have "\<dots> = take (B * (C * (H * W))) (drop 0 xs)"
    by (rule concat_take_drop) (simp add: assms)
  finally show ?thesis by (simp add: assms)
qed

lemma tab4_cong:
  assumes "\<And>b c h w. b < B \<Longrightarrow> c < C \<Longrightarrow> h < H \<Longrightarrow> w < W \<Longrightarrow> f b c h w = g b c h w"
  shows "[f b c h w. b \<leftarrow> [0..<B], c \<leftarrow> [0..<C], h \<leftarrow> [0..<H], w \<leftarrow> [0..<W]] =
         [g b c h w. b \<leftarrow> [0..<B], c \<leftarrow> [0..<C], h \<leftarrow> [0..<H], w \<leftarrow> [0..<W]]"
  by (intro arg_cong[where f = concat] map_cong refl) (simp add: assms)

lemma tab3_cong:
  assumes "\<And>i h w. i < M \<Longrightarrow> h < H \<Longrightarrow> w < W \<Longrightarrow> f i h w = g i h w"
  shows "[f i h w. i \<leftarrow> [0..<M], h \<leftarrow> [0..<H], w \<leftarrow> [0..<W]] =
         [g i h w. i \<leftarrow> [0..<M], h \<leftarrow> [0..<H], w \<leftarrow> [0..<W]]"
  by (intro arg_cong[where f = concat] map_cong refl) (simp add: assms)

lemma plane_nth:
  assumes "length (elems v) = M * (H * W)" and "i < M" and "h < H" and "w < W"
  shows "plane v H W i ! h ! w = elems v ! (0 + (i * H + h) * W + w)"
proof -
  have "Suc h \<le> H" using assms(3) by simp
  then have "i * H + Suc h \<le> i * H + H" by simp
  also have "\<dots> = Suc i * H" by simp
  also have "\<dots> \<le> M * H" using assms(2) by (intro mult_le_mono1) simp
  finally have "(i * H + Suc h) * W \<le> M * H * W" by (rule mult_le_mono1)
  then have "(i * H + h) * W + W \<le> length (elems v)"
    by (simp add: assms(1) algebra_simps)
  then have "(i * H + h) * W + w < length (elems v)" using assms(4) by simp
  then show ?thesis using assms(3,4) by (simp add: plane_def)
qed

lemma plane_square:
  assumes "length (elems v) = M * (s * s)" and "i < M"
  shows "length (plane v s s i) = s \<and> list_all (\<lambda>r. length r = s) (plane v s s i)"
proof -
  have "length (take s (drop ((i * s + h) * s) (elems v))) = s" if "h < s" for h
  proof -
    have "Suc h \<le> s" using that by simp
    then have "i * s + Suc h \<le> i * s + s" by simp
    also have "\<dots> = Suc i * s" by simp
    also have "\<dots> \<le> M * s" using assms(2) by (intro mult_le_mono1) simp
    finally have "(i * s + Suc h) * s \<le> M * s * s" by (rule mult_le_mono1)
    then have "(i * s + h) * s + s \<le> length (elems v)"
      by (simp add: assms(1) algebra_simps)
    then show ?thesis by simp
  qed
  then show ?thesis by (simp add: plane_def list_all_iff)
qed

lemma resample_equal_size:
  assumes su: "shape u = [B, s, s, C]" and lu: "length (elems u) = B * (s * (s * C))"
    and K: "identity_at_equal_size K"
    and v: "permute_0312 u = Inr v" and w': "interpolate K v s = Inr w'"
    and y: "permute_0231 w' = Inr z"
  shows "z = u"
proof -
  let ?eu = "elems u"
  let ?ev = "[?eu ! (((b * s + h) * s + w) * C + c).
                b \<leftarrow> [0..<B], c \<leftarrow> [0..<C], h \<leftarrow> [0..<s], w \<leftarrow> [0..<s]]"
  from v su have sv: "shape v = [B, C, s, s]" and ev: "elems v = ?ev"
    by (auto simp: permute_0312_def)
  have lv: "length (elems v) = (B * C) * (s * s)"
    unfolding ev by (simp only: length_tab4 mult.assoc)
  from w' sv have sw: "shape w' = [B, C, s, s]"
    and ew: "elems w' = [K (plane v s s i) s h w. i \<leftarrow> [0..<B * C], h \<leftarrow> [0..<s], w \<leftarrow> [0..<s]]"
    by (auto simp: interpolate_def split: if_splits)
  have Kp: "K (plane v s s i) s h w = elems v ! (0 + (i * s + h) * s + w)"
    if "i < B * C" "h < s" "w < s" for i h w
  proof -
    from plane_square[OF lv that(1)] that(2,3) K
    have "K (plane v s s i) s h w = plane v s s i ! h ! w"
      unfolding identity_at_equal_size_def by blast
    then show ?thesis using plane_nth[OF lv that] by simp
  qed
  have "elems w' = [elems v ! (0 + (i * s + h) * s + w). i \<leftarrow> [0..<B * C], h \<leftarrow> [0..<s], w \<leftarrow> [0..<s]]"
    unfolding ew by (rule tab3_cong) (rule Kp)
  also have "\<dots> = take ((B * C) * (s * s)) (drop 0 (elems v))"
    by (rule tab3_eq) (simp add: lv)
  finally have ew': "elems w' = elems v" by (simp add: lv)
  from y sw have sz: "shape z = [B, s, s, C]"
    and ez: "elems z = [elems w' ! (((b * C + c) * s + h) * s + w).
                          b \<leftarrow> [0..<B], h \<leftarrow> [0..<s], w \<leftarrow> [0..<s], c \<leftarrow> [0..<C]]"
    by (auto simp: permute_0231_def)
  have "elems z = [?eu ! (((b * s + h) * s + w) * C + c).
                     b \<leftarrow> [0..<B], h \<leftarrow> [0..<s], w \<leftarrow> [0..<s], c \<leftarrow> [0..<C]]"
    unfolding ez ew' ev by (rule tab4_cong) (rule nth_tab4)
  also have "\<dots> = ?eu"
    by (rule tab4_eq) (rule lu)
  finally have "elems z = elems u" .
  with sz su show ?thesis by simp
qed

lemma take_chunk:
  assumes "\<And>i. i < n \<Longrightarrow> length (f i) = L" and "b < n"
  shows "take L (drop (b * L) (concat (map f [0..<n]))) = f b"
  using drop_concat_chunks[OF assms] assms by simp

lemma rows_chunk:
  assumes "length (elems t) = B * N * inner" and "shape t = B # N # rest" and "inner = prod_list rest"
    and "lo + len \<le> N" and "b < B"
  shows "take (len * inner) (drop (b * len * inner) (rows t lo len)) =
         take (len * inner) (drop ((b * N + lo) * inner) (elems t))"
proof -
  let ?f = "\<lambda>b. take (len * inner) (drop ((b * N + lo) * inner) (elems t))"
  have r: "rows t lo len = concat (map ?f [0..<B])"
    by (simp add: rows_def assms(2,3))
  have chunk: "length (?f i) = len * inner" if "i < B" for i
    using assms(1) that assms(4) by (rule chunk_length)
  have "take (len * inner) (drop (b * (len * inner)) (concat (map ?f [0..<B]))) = ?f b"
    using chunk assms(5) by (rule take_chunk)
  then show ?thesis by (simp add: r mult.assoc)
qed

lemma length_rows:
  assumes "length (elems t) = B * N * inner" and "shape t = B # N # rest" and "inner = prod_list rest"
    and "lo + len \<le> N"
  shows "length (rows t lo len) = B * (len * inner)"
proof -
  let ?f = "\<lambda>b. take (len * inner) (drop ((b * N + lo) * inner) (elems t))"
  have r: "rows t lo len = concat (map ?f [0..<B])"
    by (simp add: rows_def assms(2,3))
  have "length (concat (map ?f [0..<B])) = length [0..<B] * (len * inner)"
  proof (rule length_concat_const)
    fix b assume "b \<in> set [0..<B]"
    then have "b < B" by simp
    with assms(1) show "length (?f b) = len * inner"
      using assms(4) by (rule chunk_length)
  qed
  then show ?thesis by (simp add: r)
qed

lemma cat_rows_split:
  assumes wf: "well_formed t" and st: "shape t = [B, N, C]" and a: "a \<le> N"
  shows "cat_dim1 \<lparr> shape = [B, a, C], elems = rows t 0 a \<rparr>
                  \<lparr> shape = [B, N - a, C], elems = rows t a (N - a) \<rparr> = Inr t"
proof -
  let ?et = "elems t"
  have lt: "length ?et = B * N * C" using wf st by (simp add: well_formed_def)
  have inner: "C = prod_list [C]" by simp
  have piece: "take (a * C) (drop (b * a * C) (rows t 0 a)) @
               take ((N - a) * C) (drop (b * (N - a) * C) (rows t a (N - a))) =
               take (N * C) (drop (0 + b * (N * C)) ?et)" if "b < B" for b
  proof -
    have 1: "take (a * C) (drop (b * a * C) (rows t 0 a)) = take (a * C) (drop ((b * N + 0) * C) ?et)"
      using lt st inner _ that by (rule rows_chunk) (simp add: a)
    have 2: "take ((N - a) * C) (drop (b * (N - a) * C) (rows t a (N - a))) =
             take ((N - a) * C) (drop ((b * N + a) * C) ?et)"
      using lt st inner _ that by (rule rows_chunk) (simp add: a)
    have "take (N * C) (drop (b * N * C) ?et) = take (a * C + (N - a) * C) (drop (b * N * C) ?et)"
      using a by (simp add: algebra_simps flip: add_mult_distrib)
    also have "\<dots> = take (a * C) (drop (b * N * C) ?et) @
                     take ((N - a) * C) (drop (a * C) (drop (b * N * C) ?et))"
      by (rule take_add)
    also have "\<dots> = take (a * C) (drop ((b * N + 0) * C) ?et) @
                     take ((N - a) * C) (drop ((b * N + a) * C) ?et)"
      by (simp add: algebra_simps)
    finally show ?thesis using 1 2 by (simp add: mult.assoc)
  qed
  have "concat (map (\<lambda>b. take (a * C) (drop (b * a * C) (rows t 0 a)) @
               take ((N - a) * C) (drop (b * (N - a) * C) (rows t a (N - a)))) [0..<B]) =
        concat (map (\<lambda>b. take (N * C) (drop (0 + b * (N * C)) ?et)) [0..<B])"
    by (intro arg_cong[where f = concat] map_cong refl) (simp add: piece)
  also have "\<dots> = take (B * (N * C)) (drop 0 ?et)"
    by (rule concat_take_drop) (simp add: lt)
  finally have "concat (map (\<lambda>b. take (a * C) (drop (b * a * C) (rows t 0 a)) @
               take ((N - a) * C) (drop (b * (N - a) * C) (rows t a (N - a)))) [0..<B]) = ?et"
    by (simp add: lt)
  then show ?thesis using a st by (simp add: cat_dim1_def)
qed

lemma new_pos_embed_equal_size:
  assumes run: "new_pos_embed E m t = Inr t'"
    and wf: "well_formed t" and batch: "0 < hd (shape t)"
    and K: "identity_at_equal_size (bicubic E)"
    and same: "orig_size m t = new_size m"
  shows "t' = t"
proof -
  from run obtain emb k n orig new x pos u v w' z y where
    k: "num_extra_tokens m = Inr k" and n: "py_index (shape t) (- 2) = Inr n"
    and emb: "py_index (shape t) (- 1) = Inr emb"
    and o: "int_sqrt (int n - k) = Inr orig"
    and nw: "int_sqrt (num_patches (patch_embed m)) = Inr new"
    and x: "rows_upto t k = Inr x" and pos: "rows_from t k = Inr pos"
    and u: "reshape_infer pos [orig, orig, emb] = Inr u"
    and v: "permute_0312 u = Inr v"
    and w': "interpolate (bicubic E) v new = Inr w'"
    and z: "permute_0231 w' = Inr z" and y: "flatten_1_2 z = Inr y"
    and c: "cat_dim1 x y = Inr t'"
    unfolding new_pos_embed_def ebind_Inr_iff by blast
  from same k n o nw have new: "new = orig"
    by (simp add: orig_size_def new_size_def)
  from x obtain B N rest where st: "shape t = B # N # rest"
    by (auto simp: rows_upto_def split: list.splits)
  let ?a = "clamp_slice N k"
  let ?inner = "prod_list rest"
  have a: "?a \<le> N" by (rule clamp_slice_le)
  from x st have x': "x = \<lparr> shape = B # ?a # rest, elems = rows t 0 ?a \<rparr>"
    by (simp add: rows_upto_def)
  from pos st have pos': "pos = \<lparr> shape = B # (N - ?a) # rest, elems = rows t ?a (N - ?a) \<rparr>"
    by (simp add: rows_from_def)
  have lt: "length (elems t) = B * N * ?inner"
    using wf st by (simp add: well_formed_def)
  have lpos: "length (elems pos) = B * ((N - ?a) * ?inner)"
  proof -
    have "?a + (N - ?a) \<le> N" using a by simp
    then have "length (rows t ?a (N - ?a)) = B * ((N - ?a) * ?inner)"
      by (rule length_rows[OF lt st refl])
    then show ?thesis by (simp add: pos')
  qed
  let ?known = "orig * (orig * emb)"
  let ?numel = "B * ((N - ?a) * ?inner)"
  from u pos' have known: "?known \<noteq> 0" and dv: "?numel mod ?known = 0"
    and u': "u = \<lparr> shape = [?numel div ?known, orig, orig, emb], elems = elems pos \<rparr>"
    by (auto simp: reshape_infer_def Let_def mult.assoc split: if_splits)
  let ?B' = "?numel div ?known"
  have su: "shape u = [?B', orig, orig, emb]" by (simp add: u')
  have numel: "?numel = ?B' * ?known"
    using dv div_mult_mod_eq[of ?numel ?known] by simp
  have lu: "length (elems u) = ?B' * (orig * (orig * emb))"
    using numel by (simp add: u' lpos)
  have zu: "z = u"
    using su lu K v w'[unfolded new] z by (rule resample_equal_size)
  from y zu u' have y': "y = \<lparr> shape = [?B', orig * orig, emb], elems = elems pos \<rparr>"
    by (simp add: flatten_1_2_def)
  from c x' y' have B: "?B' = B" and rest: "rest = [emb]"
    by (auto simp: cat_dim1_def split: if_splits)
  from batch st have B0: "0 < B" by simp
  from known have e0: "0 < emb" by simp
  have "?numel = B * ?known"
    using numel by (simp only: B)
  then have "B * ((N - ?a) * emb) = B * (orig * (orig * emb))"
    by (simp add: rest)
  then have "(N - ?a) * emb = (orig * orig) * emb"
    using B0 by (simp add: mult.assoc)
  then have grid: "N - ?a = orig * orig"
    using e0 by simp
  have st': "shape t = [B, N, emb]" by (simp add: st rest)
  have y2: "y = \<lparr> shape = [B, N - ?a, emb], elems = rows t ?a (N - ?a) \<rparr>"
    unfolding y' B grid[symmetric] by (simp add: pos')
  have x2: "x = \<lparr> shape = [B, ?a, emb], elems = rows t 0 ?a \<rparr>"
    by (simp add: x' rest)
  have "cat_dim1 x y = Inr t"
    unfolding x2 y2 using wf st' a by (rule cat_rows_split)
  with c show ?thesis by simp
qed

lemma drop_head_keys_other:
  "drop_head_keys sd checkpoint_model ks = Inr checkpoint_model' \<Longrightarrow> k \<notin> set ks \<Longrightarrow>
   checkpoint_model' k = checkpoint_model k"
proof (induction ks arbitrary: checkpoint_model)
  case Nil
  then show ?case by simp
next
  case (Cons k' ks)
  from Cons.prems(2) have ne: "k \<noteq> k'" and k: "k \<notin> set ks" by auto
  show ?case
  proof (cases "checkpoint_model k'")
    case None
    with Cons.prems(1) have "drop_head_keys sd checkpoint_model ks = Inr checkpoint_model'" by simp
    from Cons.IH[OF this k] show ?thesis .
  next
    case (Some t)
    with Cons.prems(1) obtain s where s: "sd k' = Some s"
      and r: "(if shape t \<noteq> shape s then drop_head_keys sd (checkpoint_model(k' := None)) ks
               else drop_head_keys sd checkpoint_model ks) = Inr checkpoint_model'"
      by (auto simp: ebind_Inr_iff lookup_def split: option.splits)
    show ?thesis
    proof (cases "shape t \<noteq> shape s")
      case True
      with r have "drop_head_keys sd (checkpoint_model(k' := None)) ks = Inr checkpoint_model'" by simp
      from Cons.IH[OF this k] ne show ?thesis by simp
    next
      case False
      with r have "drop_head_keys sd checkpoint_model ks = Inr checkpoint_model'" by simp
      from Cons.IH[OF this k] show ?thesis .
    qed
  qed
qed

lemma map_of_update_named:
  "map_of (update_named f [] ps) k = map_option (f k) (map_of ps k)"
  by (induction ps) (auto simp: update_named_def)

lemma pos_embed_load_state_dict:
  assumes "load_state_dict m sd = Inr m'" and "pos_embed m = Inr p" and "sd ''pos_embed'' = Some t"
  shows "pos_embed m' = Inr (p\<lparr> data := t \<rparr>)"
proof -
  let ?f = "\<lambda>n p. case sd n of None \<Rightarrow> p | Some t \<Rightarrow> p\<lparr> data := t \<rparr>"
  from assms(1) have m': "m' = update_parameters ?f m"
    by (auto simp: load_state_dict_def split: if_splits)
  from assms(2) have "map_of (own_params m) ''pos_embed'' = Some p"
    by (auto simp: pos_embed_def split: option.splits)
  then have "map_of (own_params m') ''pos_embed'' = Some (p\<lparr> data := t \<rparr>)"
    by (simp add: m' update_parameters_def map_of_update_named assms(3))
  then show ?thesis by (simp add: pos_embed_def)
qed

lemma example_kernel_identity: "identity_at_equal_size example_kernel"
  by (simp add: identity_at_equal_size_def example_kernel_def)

text \<open>
  C8. When \<^verbatim>\<open>load_weight\<close> returns on a checkpoint whose grid size \<^verbatim>\<open>orig_size\<close> equals the
  model's \<^verbatim>\<open>new_size\<close>, the positional embedding of the loaded model is the tensor of
  the checkpoint, unchanged. The checkpoint's tensor holds as many elements as its
  shape says and has at least one batch, and the bicubic kernel is the identity on a
  square plane resampled to its own size.
\<close>

theorem load_weight_equal_grid_keeps_pos_embed:
  assumes run: "load_weight E m weight = Inr m'"
    and fetch: "(if prefix ''https'' weight then hub_load E weight else torch_load E weight) = Inr checkpoint"
    and model: "checkpoint ''model'' = Some checkpoint_model"
    and pe: "checkpoint_model ''pos_embed'' = Some t"
    and wf: "well_formed t" and batch: "0 < hd (shape t)"
    and K: "identity_at_equal_size (bicubic E)"
    and same: "orig_size m t = new_size m"
  shows "\<exists>p. pos_embed m' = Inr p \<and> data p = t"
proof -
  from run fetch model obtain cm1 cm2 where
    d: "drop_head_keys (state_dict m) checkpoint_model head_keys = Inr cm1"
    and i: "interpolate_pos_embed E m cm1 = Inr cm2"
    and l: "load_state_dict m cm2 = Inr m'"
    by (auto simp: load_weight_def lookup_def ebind_Inr_iff)
  have "''pos_embed'' \<notin> set head_keys" by (simp add: head_keys_def)
  with d pe have pe1: "cm1 ''pos_embed'' = Some t"
    using drop_head_keys_other by fastforce
  with i obtain t' where t': "new_pos_embed E m t = Inr t'"
    and cm2: "cm2 = cm1(''pos_embed'' \<mapsto> t')"
    by (auto simp: interpolate_pos_embed_def lookup_def ebind_Inr_iff)
  from t' wf batch K same have "t' = t" by (rule new_pos_embed_equal_size)
  with cm2 have pe2: "cm2 ''pos_embed'' = Some t" by simp
  from t' obtain p where p: "pos_embed m = Inr p"
    by (auto simp: new_pos_embed_def num_extra_tokens_def ebind_Inr_iff)
  from pos_embed_load_state_dict[OF l p pe2] show ?thesis by simp
qed

theorem load_weight_equal_grid_keeps_pos_embed_witness:
  "load_weight grid_env grid_model ''https://dl.fbaipublicfiles.com/deit/deit_tiny_patch16_224-a1311bcf.pth'' =
     Inr (grid_model\<lparr> own_params :=
            [(''cls_token'', \<lparr> data = \<lparr> shape = [1, 1, 2], elems = [7, 7] \<rparr>, requires_grad = True \<rparr>),
             (''pos_embed'', \<lparr> data = grid_tensor, requires_grad = True \<rparr>)] \<rparr>) \<and>
   (\<exists>p. pos_embed (grid_model\<lparr> own_params :=
            [(''cls_token'', \<lparr> data = \<lparr> shape = [1, 1, 2], elems = [7, 7] \<rparr>, requires_grad = True \<rparr>),
             (''pos_embed'', \<lparr> data = grid_tensor, requires_grad = True \<rparr>)] \<rparr>) = Inr p \<and>
        data p = grid_tensor)"
proof -
  let ?w = "''https://dl.fbaipublicfiles.com/deit/deit_tiny_patch16_224-a1311bcf.pth''"
  let ?m' = "grid_model\<lparr> own_params :=
            [(''cls_token'', \<lparr> data = \<lparr> shape = [1, 1, 2], elems = [7, 7] \<rparr>, requires_grad = True \<rparr>),
             (''pos_embed'', \<lparr> data = grid_tensor, requires_grad = True \<rparr>)] \<rparr>"
  let ?cm = "[''pos_embed'' \<mapsto> grid_tensor]"
  have h1: "load_weight grid_env grid_model ?w = Inr ?m'"
    by code_simp
  have h2: "(if prefix ''https'' ?w then hub_load grid_env ?w else torch_load grid_env ?w) =
      Inr [''model'' \<mapsto> ?cm]"
    by (simp add: grid_env_def)
  have h3: "[''model'' \<mapsto> ?cm] ''model'' = Some ?cm" by simp
  have h4: "?cm ''pos_embed'' = Some grid_tensor" by simp
  have h5: "well_formed grid_tensor" by (simp add: well_formed_def grid_tensor_def)
  have h6: "0 < hd (shape grid_tensor)" by (simp add: grid_tensor_def)
  have h7: "identity_at_equal_size (bicubic grid_env)"
    by (simp add: grid_env_def example_kernel_identity)
  have h8: "orig_size grid_model grid_tensor = new_size grid_model"
    by code_simp
  from load_weight_equal_grid_keeps_pos_embed[OF h1 h2 h3 h4 h5 h6 h7 h8] h1
  show ?thesis by simp
qed

subsection \<open>Orchestrator: the default depth\<close>

lemma fold_max_ge: "y \<le> fold max ys (y::int)"
  by (induction ys arbitrary: y) (auto intro: order_trans[OF max.cobounded2])

lemma fold_max_member: "x \<in> set ys \<Longrightarrow> x \<le> fold max ys (y::int)"
proof (induction ys arbitrary: y)
  case Nil
  then show ?case by simp
next
  case (Cons z ys)
  show ?case
  proof (cases "x = z")
    case True
    have "z \<le> max z y" by simp
    also have "\<dots> \<le> fold max ys (max z y)" by (rule fold_max_ge)
    finally show ?thesis using True by simp
  next
    case False
    with Cons.prems have "x \<in> set ys" by simp
    then show ?thesis using Cons.IH by simp
  qed
qed

lemma py_max_ge: "py_max xs = Inr mx \<Longrightarrow> x \<in> set xs \<Longrightarrow> x \<le> mx"
  by (cases xs) (auto simp: py_max_def fold_max_ge fold_max_member)

lemma update_block_empty: "update_block f pre b = EmptyBlock \<longleftrightarrow> b = EmptyBlock"
  by (cases b) simp_all

lemma blocks_update_parameters:
  "length (blocks (update_parameters f m)) = length (blocks m)"
  "p < length (blocks m) \<Longrightarrow>
     blocks (update_parameters f m) ! p = EmptyBlock \<longleftrightarrow> blocks m ! p = EmptyBlock"
  by (simp_all add: update_parameters_def nth_enumerate_eq update_block_empty)

lemma load_weight_updates:
  "load_weight E m weight = Inr m' \<Longrightarrow> \<exists>f. m' = update_parameters f m"
  by (auto simp: load_weight_def load_state_dict_def ebind_Inr_iff split: if_splits)

lemma new_mixer_block_not_empty: "new_mixer_block E model_name = Inr blk \<Longrightarrow> blk \<noteq> EmptyBlock"
  by (auto simp: new_mixer_block_def ebind_Inr_iff)

lemma replace_att2mixer_not_empty:
  "replace_att2mixer E m repl model_name = Inr m' \<Longrightarrow>
   length (blocks m') = length (blocks m) \<and>
   (\<forall>p<length (blocks m). blocks m' ! p = EmptyBlock \<longrightarrow> blocks m ! p = EmptyBlock)"
proof (induction repl arbitrary: m)
  case Nil
  then show ?case by simp
next
  case (Cons i repl)
  from Cons.prems obtain blk bs where blk: "new_mixer_block E model_name = Inr blk"
    and bs: "seq_set (blocks m) i blk = Inr bs"
    and r: "replace_att2mixer E (m\<lparr> blocks := bs \<rparr>) repl model_name = Inr m'"
    by (auto simp: ebind_Inr_iff)
  from bs have bs': "bs = (blocks m)[nat (i mod int (length (blocks m))) := blk]"
    by (simp add: seq_set_Inr_iff)
  from Cons.IH[OF r] have len: "length (blocks m') = length bs"
    and nth: "\<forall>p<length bs. blocks m' ! p = EmptyBlock \<longrightarrow> bs ! p = EmptyBlock"
    by simp_all
  have "blocks m ! p = EmptyBlock" if "p < length (blocks m)" "blocks m' ! p = EmptyBlock" for p
  proof -
    from that nth bs' have e: "bs ! p = EmptyBlock" by simp
    show ?thesis
    proof (cases "nat (i mod int (length (blocks m))) = p")
      case True
      with e that(1) bs' have "blk = EmptyBlock" by simp
      with new_mixer_block_not_empty[OF blk] show ?thesis by simp
    next
      case False
      with e bs' show ?thesis by simp
    qed
  qed
  then show ?case using len bs' by simp
qed

lemma cut_extra_layers_beyond_depth:
  assumes "cut_extra_layers m max_index depth = Inr m'" and "- 1 \<le> max_index"
    and "depth \<le> int p" and "p < length (blocks m)"
  shows "length (blocks m') = length (blocks m) \<and> blocks m' ! p = blocks m ! p"
proof -
  let ?ixs = "[max_index + 1 .. depth - 1]"
  let ?n = "int (length (blocks m))"
  from assms(1) obtain bs where bs: "empty_blocks (blocks m) ?ixs = Inr bs"
    and m': "blocks m' = bs"
    by (auto simp: cut_extra_layers_def ebind_Inr_iff)
  from bs have rng: "\<forall>i\<in>set ?ixs. - ?n \<le> i \<and> i < ?n"
    using empty_blocks_Inr_iff[of "blocks m" ?ixs] by blast
  have "\<not> (\<exists>i\<in>set ?ixs. nat (i mod ?n) = p)"
  proof
    assume "\<exists>i\<in>set ?ixs. nat (i mod ?n) = p"
    then obtain i where i: "i \<in> set ?ixs" "nat (i mod ?n) = p" by blast
    with rng have "i < ?n" by blast
    moreover from i(1) assms(2) have "0 \<le> i" "i < depth" by simp_all
    ultimately have "i mod ?n = i" by simp
    with i(2) \<open>0 \<le> i\<close> have "int p = i" by simp
    with \<open>i < depth\<close> assms(3) show False by simp
  qed
  with empty_blocks_nth[OF bs assms(4)] empty_blocks_length[OF bs] m'
  show ?thesis by simp
qed

lemma main_train_models:
  assumes "main_train E a repl model_repl model_ori = (evs, r)"
    and "TrainModel student teacher n \<in> set evs"
  shows "\<exists>model model_ori' max_index partial_model partial_model_ori.
           load_weight E model_repl (args_d_weight a) = Inr model \<and>
           load_weight E model_ori (args_d_weight a) = Inr model_ori' \<and>
           py_max repl = Inr max_index \<and>
           cut_extra_layers model max_index default_depth = Inr partial_model \<and>
           cut_extra_layers model_ori' max_index default_depth = Inr partial_model_ori \<and>
           student = set_requires_grad partial_model repl True \<and>
           teacher = set_requires_grad partial_model_ori [] True"
  using assms
  by (auto simp: main_train_def ebind_Inr_iff split: sum.splits prod.splits)

lemma main_models:
  assumes "main E a = (evs, r)" and "TrainModel student teacher n \<in> set evs"
  shows "\<exists>nb_classes model_deit repl model_repl evs'.
           build_dataset E True = Inr nb_classes \<and>
           create_model E (args_d_model a) nb_classes (args_input_size a) = Inr model_deit \<and>
           args_replace a = Some repl \<and>
           replace_att2mixer E model_deit repl (args_d_model a) = Inr model_repl \<and>
           main_train E a repl model_repl model_deit = (evs', r) \<and>
           TrainModel student teacher n \<in> set evs'"
  using assms
  by (auto simp: main_def main_mode_def main_eval_def ebind_Inr_iff
      split: sum.splits prod.splits option.splits if_splits)

text \<open>
  C10. Claimed: \<^verbatim>\<open>main\<close> truncates with the default depth 12, so in a model of more than
  12 blocks no block at position 12 or beyond becomes a pass-through block, whatever
  the replacement indices. \<^verbatim>\<open>main\<close> does call \<^verbatim>\<open>cut_extra_layers\<close> without a depth, but the
  loop starts at \<open>max(args.replace) + 1\<close>, and a negative index there is an assignment
  from the end of the sequence. So: when the largest replacement index is at least
  \<open>-1\<close>, every block at a position from 12 on that was not an \<^verbatim>\<open>EmptyBlock\<close> in the created
  model is not one in the student and the teacher handed to \<^verbatim>\<open>train_model\<close>.
\<close>

theorem main_keeps_blocks_beyond_default_depth:
  assumes "main E a = (evs, r)" and "TrainModel student teacher n \<in> set evs"
    and "args_replace a = Some repl" and "\<exists>i\<in>set repl. - 1 \<le> i"
    and "build_dataset E True = Inr nb_classes"
    and "create_model E (args_d_model a) nb_classes (args_input_size a) = Inr model_deit"
    and "default_depth \<le> int p" and "p < length (blocks model_deit)"
    and "blocks model_deit ! p \<noteq> EmptyBlock"
  shows "length (blocks student) = length (blocks model_deit) \<and>
         length (blocks teacher) = length (blocks model_deit) \<and>
         blocks student ! p \<noteq> EmptyBlock \<and> blocks teacher ! p \<noteq> EmptyBlock"
proof -
  from main_models[OF assms(1,2)] assms(3,5,6) obtain model_repl evs' where
    repl: "replace_att2mixer E model_deit repl (args_d_model a) = Inr model_repl"
    and tr: "main_train E a repl model_repl model_deit = (evs', r)"
    and ev: "TrainModel student teacher n \<in> set evs'"
    by auto
  from main_train_models[OF tr ev] obtain model model_ori max_index partial_model partial_model_ori
    where lw: "load_weight E model_repl (args_d_weight a) = Inr model"
      and lo: "load_weight E model_deit (args_d_weight a) = Inr model_ori"
      and mx: "py_max repl = Inr max_index"
      and cs: "cut_extra_layers model max_index default_depth = Inr partial_model"
      and ct: "cut_extra_layers model_ori max_index default_depth = Inr partial_model_ori"
      and s: "student = set_requires_grad partial_model repl True"
      and t: "teacher = set_requires_grad partial_model_ori [] True"
    by blast
  from assms(4) mx have mi: "- 1 \<le> max_index"
    using py_max_ge by fastforce
  from replace_att2mixer_not_empty[OF repl] assms(8,9)
  have r1: "length (blocks model_repl) = length (blocks model_deit)"
    and r2: "blocks model_repl ! p \<noteq> EmptyBlock"
    by auto
  from load_weight_updates[OF lw] obtain f where f: "model = update_parameters f model_repl" by blast
  from load_weight_updates[OF lo] obtain g where g: "model_ori = update_parameters g model_deit" by blast
  have m1: "length (blocks model) = length (blocks model_deit)" "blocks model ! p \<noteq> EmptyBlock"
    using r1 r2 assms(8) by (simp_all add: f blocks_update_parameters)
  have m2: "length (blocks model_ori) = length (blocks model_deit)" "blocks model_ori ! p \<noteq> EmptyBlock"
    using assms(8,9) by (simp_all add: g blocks_update_parameters)
  have p1: "p < length (blocks model)" and p2: "p < length (blocks model_ori)"
    using m1 m2 assms(8) by simp_all
  from cut_extra_layers_beyond_depth[OF cs mi assms(7) p1] m1
  have c1: "length (blocks partial_model) = length (blocks model_deit)"
    "blocks partial_model ! p \<noteq> EmptyBlock"
    by simp_all
  from cut_extra_layers_beyond_depth[OF ct mi assms(7) p2] m2
  have c2: "length (blocks partial_model_ori) = length (blocks model_deit)"
    "blocks partial_model_ori ! p \<noteq> EmptyBlock"
    by simp_all
  show ?thesis
    using c1 c2 assms(8)
    by (simp add: s t set_requires_grad_def blocks_update_parameters)
qed

theorem main_keeps_blocks_beyond_default_depth_witness:
  "\<exists>student teacher n.
     TrainModel student teacher n \<in> set (fst (main (example_env 13) (example_args [1] True False))) \<and>
     length (blocks student) = 13 \<and> length (blocks teacher) = 13 \<and>
     blocks student ! 12 \<noteq> EmptyBlock \<and> blocks teacher ! 12 \<noteq> EmptyBlock"
proof -
  let ?E = "example_env 13"
  let ?a = "example_args [1] True False"
  have "list_ex (\<lambda>e. case e of TrainModel s t n \<Rightarrow> True | _ \<Rightarrow> False) (fst (main ?E ?a))"
    by code_simp
  then obtain e where e: "e \<in> set (fst (main ?E ?a))"
    and c: "case e of TrainModel s t n \<Rightarrow> True | _ \<Rightarrow> False"
    by (auto simp: list_ex_iff)
  from c obtain student teacher n where "e = TrainModel student teacher n"
    by (cases e) simp_all
  with e have ev: "TrainModel student teacher n \<in> set (fst (main ?E ?a))" by simp
  have m: "main ?E ?a = (fst (main ?E ?a), snd (main ?E ?a))" by simp
  have h3: "args_replace ?a = Some [1]" by (simp add: example_args_def)
  have h4: "\<exists>i\<in>set [1::int]. - 1 \<le> i" by simp
  have h5: "build_dataset ?E True = Inr 100" by (simp add: example_env_def)
  have h6: "create_model ?E (args_d_model ?a) 100 (args_input_size ?a) = Inr (example_model 13)"
    by (simp add: example_env_def)
  have h7: "default_depth \<le> int 12" by (simp add: default_depth_def)
  have h8: "12 < length (blocks (example_model 13))" by (simp add: example_model_def)
  have h9: "blocks (example_model 13) ! 12 \<noteq> EmptyBlock" by (simp add: example_model_def)
  from main_keeps_blocks_beyond_default_depth[OF m ev h3 h4 h5 h6 h7 h8 h9]
  have "length (blocks student) = 13 \<and> length (blocks teacher) = 13 \<and>
     blocks student ! 12 \<noteq> EmptyBlock \<and> blocks teacher ! 12 \<noteq> EmptyBlock"
    by (simp add: example_model_def)
  with ev show ?thesis by blast
qed

text \<open>
  With \<^verbatim>\<open>args.replace = [-2]\<close> on a model of 14 blocks the loop runs over
  \<open>-1, 0, \<dots>, 11\<close>, and the index \<open>-1\<close> empties the block at position 13.
\<close>

theorem main_negative_index_empties_last_block:
  "length (blocks (example_model 14)) = 14 \<and>
   blocks (example_model 14) ! 13 \<noteq> EmptyBlock \<and>
   (case last (fst (main (example_env 14) (example_args [- 2] True False))) of
      TrainModel student teacher n \<Rightarrow>
        blocks student ! 13 = EmptyBlock \<and> blocks teacher ! 13 = EmptyBlock
    | _ \<Rightarrow> False)"
  by code_simp

end
